theory Spec2Isabelle
  imports Complex_Main
begin

section \<open>JavaScript values\<close>

text \<open>
  The dashboard script \<^verbatim>\<open>frontend/static/js/app.js\<close> is embedded function by
  function. Strings are \<^typ>\<open>string\<close>: sequences of code units below 256, which is
  enough for every literal of the script and for the white space that \<^verbatim>\<open>trim\<close>
  removes in that range.

  A number is a binary64 value, written by its exact rational value; the two zeros are not
  distinguished (no operation of the script tells them apart in what it displays).
\<close>

datatype jsnum = NaN | NegInfinity | Fin rat | PosInfinity

text \<open>
  A value that came out of \<^verbatim>\<open>JSON.parse\<close>. An object is the list of its own
  properties in the order \<^verbatim>\<open>Object.keys\<close> enumerates them. \<^verbatim>\<open>undefined\<close> is
  \<open>None\<close> of the option type.
\<close>

datatype json =
    JNull
  | JBool bool
  | JNum jsnum
  | JStr string
  | JArr "json list"
  | JObj "(string \<times> json) list"

type_synonym jsval = "json option"

text \<open>\<^verbatim>\<open>ToBoolean\<close>: what \<^verbatim>\<open>!v\<close>, \<^verbatim>\<open>v || d\<close> and \<^verbatim>\<open>if (v)\<close> test.\<close>

fun truthy_num :: "jsnum \<Rightarrow> bool" where
  "truthy_num NaN = False"
| "truthy_num (Fin q) = (q \<noteq> 0)"
| "truthy_num NegInfinity = True"
| "truthy_num PosInfinity = True"

fun truthy :: "jsval \<Rightarrow> bool" where
  "truthy None = False"
| "truthy (Some JNull) = False"
| "truthy (Some (JBool b)) = b"
| "truthy (Some (JNum n)) = truthy_num n"
| "truthy (Some (JStr s)) = (s \<noteq> [])"
| "truthy (Some (JArr xs)) = True"
| "truthy (Some (JObj kvs)) = True"

fun typeof :: "jsval \<Rightarrow> string" where
  "typeof None = ''undefined''"
| "typeof (Some JNull) = ''object''"
| "typeof (Some (JBool b)) = ''boolean''"
| "typeof (Some (JNum n)) = ''number''"
| "typeof (Some (JStr s)) = ''string''"
| "typeof (Some (JArr xs)) = ''object''"
| "typeof (Some (JObj kvs)) = ''object''"

section \<open>Strings: trim and split\<close>

abbreviation LF :: char where "LF \<equiv> CHR 0x0A"
abbreviation CR :: char where "CR \<equiv> CHR 0x0D"

text \<open>
  The white space and line terminators of ECMAScript below code unit 256: TAB, LF, VT, FF,
  CR, SP and NBSP.
\<close>

definition is_space :: "char \<Rightarrow> bool" where
  "is_space c = (c \<in> {CHR 0x09, CHR 0x0A, CHR 0x0B, CHR 0x0C, CHR 0x0D, CHR 0x20, CHR 0xA0})"

text \<open>\<^verbatim>\<open>String.prototype.trim\<close>: white space is removed at both ends.\<close>

definition trim :: "string \<Rightarrow> string" where
  "trim s = rev (dropWhile is_space (rev (dropWhile is_space s)))"

text \<open>
  \<^verbatim>\<open>s.split(/\r?\n/)\<close>: the pieces of \<open>s\<close> between the matches of the
  pattern, scanning from the left. A CR right before an LF belongs to the separator; any
  other CR is an ordinary character. The result of splitting is never empty.
\<close>

fun split_newlines :: "string \<Rightarrow> string list" where
  "split_newlines [] = [[]]"
| "split_newlines [c] = (if c = LF then [[], []] else [[c]])"
| "split_newlines (c # d # cs) =
     (if c = LF then [] # split_newlines (d # cs)
      else if c = CR \<and> d = LF then [] # split_newlines cs
      else (case split_newlines (d # cs) of
              [] \<Rightarrow> [[c]]
            | l # ls \<Rightarrow> (c # l) # ls))"

section \<open>Topics\<close>

text \<open>
  \<^verbatim>\<open>
  function parseTopics(topicsText) {
    if (!topicsText || typeof topicsText !== "string") return [];
    return topicsText.split(/\r?\n/).map((t) => t.trim()).filter((t) => t.length > 0);
  }
  \<close>
\<close>

definition parseTopics :: "jsval \<Rightarrow> string list" where
  "parseTopics topicsText =
     (if \<not> truthy topicsText \<or> typeof topicsText \<noteq> ''string'' then []
      else (case topicsText of
              Some (JStr s) \<Rightarrow> filter (\<lambda>t. length t > 0) (map trim (split_newlines s))
            | _ \<Rightarrow> []))"

text \<open>
  The spec's reading of the topic list: the text is split at every newline character, each
  line is trimmed, and empty lines are dropped.
\<close>

fun split_at_LF :: "string \<Rightarrow> string list" where
  "split_at_LF [] = [[]]"
| "split_at_LF (c # cs) =
     (if c = LF then [] # split_at_LF cs
      else (case split_at_LF cs of
              [] \<Rightarrow> [[c]]
            | l # ls \<Rightarrow> (c # l) # ls))"

definition spec_topic_list :: "string \<Rightarrow> string list" where
  "spec_topic_list s = filter (\<lambda>t. t \<noteq> []) (map trim (split_at_LF s))"

section \<open>Numbers\<close>

text \<open>
  \<^verbatim>\<open>Math.max\<close>, \<^verbatim>\<open>Math.min\<close> (two arguments) and \<^verbatim>\<open>Math.round\<close>. A NaN argument
  gives NaN; \<^verbatim>\<open>Math.round\<close> rounds halves up.
\<close>

fun num_le :: "jsnum \<Rightarrow> jsnum \<Rightarrow> bool" where
  "num_le NaN b = False"
| "num_le a NaN = False"
| "num_le NegInfinity b = True"
| "num_le (Fin x) NegInfinity = False"
| "num_le (Fin x) (Fin y) = (x \<le> y)"
| "num_le (Fin x) PosInfinity = True"
| "num_le PosInfinity NegInfinity = False"
| "num_le PosInfinity (Fin y) = False"
| "num_le PosInfinity PosInfinity = True"

definition Math_max :: "jsnum \<Rightarrow> jsnum \<Rightarrow> jsnum" where
  "Math_max a b = (if a = NaN \<or> b = NaN then NaN else if num_le a b then b else a)"

definition Math_min :: "jsnum \<Rightarrow> jsnum \<Rightarrow> jsnum" where
  "Math_min a b = (if a = NaN \<or> b = NaN then NaN else if num_le a b then a else b)"

fun Math_round :: "jsnum \<Rightarrow> jsnum" where
  "Math_round (Fin x) = Fin (of_int \<lfloor>x + 1 / 2\<rfloor>)"
| "Math_round n = n"

text \<open>Decimal digits of a natural number.\<close>

definition digit :: "nat \<Rightarrow> char" where
  "digit d = ''0123456789'' ! d"

function show_nat :: "nat \<Rightarrow> string" where
  "show_nat n = (if n < 10 then [digit n] else show_nat (n div 10) @ [digit (n mod 10)])"
  by pat_completeness auto
termination
  by (relation "measure id") auto

declare show_nat.simps [simp del]

text \<open>
  A string made from a number. \<open>Text s\<close> is the string \<open>s\<close>. \<open>NumberText x\<close> stands for
  the string \<^verbatim>\<open>Number::toString(x)\<close> where its digits are the shortest ones that
  read back as the same binary64 value, which the exact value alone does not give: a
  value that is not an integer, or one beyond \<open>2^53\<close>.
\<close>

datatype jstext = Text string | NumberText jsnum

fun Number_toString :: "jsnum \<Rightarrow> jstext" where
  "Number_toString NaN = Text ''NaN''"
| "Number_toString PosInfinity = Text ''Infinity''"
| "Number_toString NegInfinity = Text ''-Infinity''"
| "Number_toString (Fin x) =
     (if x = of_int \<lfloor>x\<rfloor> \<and> \<bar>x\<bar> \<le> 2 ^ 53
      then Text ((if x < 0 then ''-'' else []) @ show_nat (nat \<bar>\<lfloor>x\<rfloor>\<bar>))
      else NumberText (Fin x))"

text \<open>
  \<^verbatim>\<open>x.toFixed(1)\<close>: below \<open>10^21\<close> the digits of the integer \<open>n\<close> nearest to
  \<open>10 * \<bar>x\<bar>\<close> (the larger one of two), with a point before the last digit and the sign
  of \<open>x\<close>; otherwise \<^verbatim>\<open>Number::toString(x)\<close>.
\<close>

fun Number_toFixed1 :: "jsnum \<Rightarrow> jstext" where
  "Number_toFixed1 (Fin x) =
     (if \<bar>x\<bar> < 10 ^ 21
      then (let n = nat \<lfloor>\<bar>x\<bar> * 10 + 1 / 2\<rfloor>
            in Text ((if x < 0 then ''-'' else []) @ show_nat (n div 10) @ ''.'' @ [digit (n mod 10)]))
      else Number_toString (Fin x))"
| "Number_toFixed1 n = Number_toString n"

section \<open>Responses of the two endpoints\<close>

text \<open>
  A property read from a parsed response: missing (\<^verbatim>\<open>undefined\<close>), \<^verbatim>\<open>null\<close>, or a
  value of the type the endpoint's contract gives it. A body that is a number, a string, a
  boolean or an array reads like an object with every property missing.
\<close>

datatype 'a field = Absent | Null | Val 'a

text \<open>\<^verbatim>\<open>v || d\<close> on a string property, and the test \<^verbatim>\<open>if (v)\<close>.\<close>

fun truthy_str :: "string field \<Rightarrow> bool" where
  "truthy_str (Val s) = (s \<noteq> [])"
| "truthy_str f = False"

fun or_str :: "string field \<Rightarrow> string \<Rightarrow> string" where
  "or_str (Val s) d = (if s \<noteq> [] then s else d)"
| "or_str f d = d"

text \<open>\<^verbatim>\<open>v ?? d\<close>, and \<^verbatim>\<open>v || d\<close> on a number.\<close>

fun nullish :: "'a field \<Rightarrow> bool" where
  "nullish (Val v) = False"
| "nullish f = True"

fun nullish_or :: "'a field \<Rightarrow> 'a \<Rightarrow> 'a" where
  "nullish_or (Val v) d = v"
| "nullish_or f d = d"

definition num_or :: "jsnum \<Rightarrow> jsnum \<Rightarrow> jsnum" where
  "num_or n d = (if truthy_num n then n else d)"

fun field_num_or :: "jsnum field \<Rightarrow> jsnum \<Rightarrow> jsnum" where
  "field_num_or (Val n) d = num_or n d"
| "field_num_or f d = d"

text \<open>The body of \<^verbatim>\<open>POST /brand/lookup/\<close>.\<close>

record lookup_data =
  r_error :: "string field"
  r_brand_name :: "string field"
  r_brand_description :: "string field"
  r_brand_url :: "string field"
  r_region :: "string field"
  r_language :: "string field"
  r_initial_topics :: "string field"

text \<open>
  A series of the trend chart is an object \<^verbatim>\<open>{name, values}\<close>. The script compares
  series by identity (\<^verbatim>\<open>ordered.includes(s)\<close>), so an array of series is a list of
  references into a store of objects; \<^verbatim>\<open>JSON.parse\<close> gives every element of an array
  a reference of its own.
\<close>

type_synonym ref = nat

record series_item =
  item_name :: jsval
  item_values :: jsval

type_synonym store = "ref \<Rightarrow> series_item"

text \<open>
  The argument \<^verbatim>\<open>series\<close> of \<^verbatim>\<open>buildDatasetsFromSeries\<close>, by the tests the function
  makes: a falsy value, an array, another object (the legacy mapping from names to value
  arrays), or a truthy value that is not an object.
\<close>

datatype series_arg =
    Falsy
  | ArrayForm "ref list"
  | ObjectForm "(string \<times> json) list"
  | OtherValue

text \<open>The same as it stands in a parsed response.\<close>

datatype series_field =
    NoSeries
  | SeriesArray "series_item list"
  | SeriesObject "(string \<times> json) list"
  | SeriesOther

record brand_data =
  b_name :: "string field"

record prompt_stats =
  ps_used :: "jsnum field"
  ps_total :: "jsnum field"

record trend_data =
  t_labels :: jsval
  t_visibility :: series_field
  t_avg_rank :: series_field

record donut_entry =
  d_label :: jsval
  d_value :: jsval

record metrics_data =
  m_brand_share_pct :: "jsnum field"
  m_avg_rank :: "jsnum field"
  m_citations :: "jsnum field"
  m_prompt_stats :: "prompt_stats field"
  m_trend :: "trend_data field"
  m_donut :: "donut_entry list field"

record analysis_data =
  a_brand :: "brand_data field"
  a_metrics :: "metrics_data field"

text \<open>The outcome of a \<^verbatim>\<open>fetch\<close> followed by \<^verbatim>\<open>resp.json()\<close>.\<close>

datatype 'a body = InvalidJSON | Parsed 'a

datatype 'a fetch_outcome = NetworkError | Response nat "'a body"

definition resp_ok :: "nat \<Rightarrow> bool" where
  "resp_ok status = (200 \<le> status \<and> status \<le> 299)"

text \<open>The requests the script sends, both \<^verbatim>\<open>POST\<close> with a JSON body.\<close>

record lookup_request =
  lq_brand_name :: string
  lq_brand_description :: string

record analyze_request =
  brand_name :: string
  brand_description :: string
  brand_url :: string
  region :: string
  language :: string
  initial_topics :: string

datatype request = BrandLookup lookup_request | BrandAnalyze analyze_request

section \<open>Chart datasets\<close>

definition chartColors :: "string list" where
  "chartColors =
     [''#2563eb'', ''#22c55e'', ''#a855f7'', ''#f97316'', ''#0ea5e9'',
      ''#64748b'', ''#16a34a'', ''#facc15'', ''#ec4899'', ''#94a3b8'']"

text \<open>
  What \<^verbatim>\<open>series[name]\<close> reads from the legacy mapping: an own property, a member
  inherited from \<^verbatim>\<open>Object.prototype\<close> (a function or object, truthy), or nothing.
\<close>

definition Object_prototype_names :: "string list" where
  "Object_prototype_names =
     [''constructor'', ''hasOwnProperty'', ''isPrototypeOf'', ''propertyIsEnumerable'',
      ''toLocaleString'', ''toString'', ''valueOf'', ''__proto__'', ''__defineGetter__'',
      ''__defineSetter__'', ''__lookupGetter__'', ''__lookupSetter__'']"

datatype member = Own json | Inherited string | Missing

definition get_member :: "(string \<times> json) list \<Rightarrow> string \<Rightarrow> member" where
  "get_member kvs k =
     (case map_of kvs k of
        Some v \<Rightarrow> Own v
      | None \<Rightarrow> if k \<in> set Object_prototype_names then Inherited k else Missing)"

fun truthy_member :: "member \<Rightarrow> bool" where
  "truthy_member (Own v) = truthy (Some v)"
| "truthy_member (Inherited k) = True"
| "truthy_member Missing = False"

text \<open>The \<^verbatim>\<open>data\<close> of a dataset: a parsed value, or an inherited member.\<close>

datatype chart_data = Data json | InheritedMember string

record dataset =
  label :: jsval
  data :: chart_data
  borderColor :: string
  backgroundColor :: string
  tension :: rat
  pointRadius :: rat
  fill :: bool
  borderWidth :: rat

text \<open>The object literal both branches of \<^verbatim>\<open>buildDatasetsFromSeries\<close> map to.\<close>

definition mk_dataset :: "jsval \<Rightarrow> chart_data \<Rightarrow> nat \<Rightarrow> dataset" where
  "mk_dataset l d idx =
     \<lparr>label = l, data = d,
      borderColor = chartColors ! (idx mod length chartColors),
      backgroundColor = chartColors ! (idx mod length chartColors),
      tension = 35 / 100, pointRadius = 15 / 10, fill = False, borderWidth = 2\<rparr>"

text \<open>
  \<^verbatim>\<open>xs.forEach((s) => { if (!ordered.includes(s)) ordered.push(s); })\<close>, from the
  \<open>ordered\<close> built so far.
\<close>

fun push_missing :: "'a list \<Rightarrow> 'a list \<Rightarrow> 'a list" where
  "push_missing ordered [] = ordered"
| "push_missing ordered (s # ss) =
     push_missing (if s \<in> set ordered then ordered else ordered @ [s]) ss"

text \<open>\<^verbatim>\<open>Array.isArray(item.values) ? item.values : []\<close>\<close>

fun values_or_empty :: "jsval \<Rightarrow> chart_data" where
  "values_or_empty (Some (JArr vs)) = Data (JArr vs)"
| "values_or_empty v = Data (JArr [])"

text \<open>\<^verbatim>\<open>series[name] || []\<close>\<close>

fun member_or_empty :: "member \<Rightarrow> chart_data" where
  "member_or_empty (Own v) = (if truthy (Some v) then Data v else Data (JArr []))"
| "member_or_empty (Inherited k) = InheritedMember k"
| "member_or_empty Missing = Data (JArr [])"

definition dataset_of_item :: "store \<Rightarrow> nat \<Rightarrow> ref \<Rightarrow> dataset" where
  "dataset_of_item heap idx item =
     mk_dataset (item_name (heap item)) (values_or_empty (item_values (heap item))) idx"

text \<open>
  \<^verbatim>\<open>buildDatasetsFromSeries(series, brandName)\<close>, lines 241 to 295. \<open>brandName\<close> is a
  string at both calls; the empty string is falsy.
\<close>

definition buildDatasetsFromSeries :: "store \<Rightarrow> series_arg \<Rightarrow> string \<Rightarrow> dataset list" where
  "buildDatasetsFromSeries heap series brandName =
     (case series of
        Falsy \<Rightarrow> []
      | ArrayForm items \<Rightarrow>
          (let ordered0 =
                 (if brandName \<noteq> []
                  then (case find (\<lambda>s. item_name (heap s) = Some (JStr brandName)) items of
                          None \<Rightarrow> []
                        | Some main \<Rightarrow> [main])
                  else []);
               ordered = push_missing ordered0 items;
               limited = take 10 ordered
           in map (\<lambda>(idx, item). dataset_of_item heap idx item) (enumerate 0 limited))
      | OtherValue \<Rightarrow> []
      | ObjectForm kvs \<Rightarrow>
          (let allBrands = map fst kvs;
               ordered0 =
                 (if brandName \<noteq> [] \<and> truthy_member (get_member kvs brandName)
                  then [brandName] else []);
               ordered = push_missing ordered0 allBrands;
               limited = take 10 ordered
           in map (\<lambda>(idx, name). mk_dataset (Some (JStr name)) (member_or_empty (get_member kvs name)) idx)
                (enumerate 0 limited)))"

text \<open>
  The spec's reading of the series order: the focal brand's series first if the source has
  one, then the remaining series in source order, without repetitions, at most ten.
\<close>

definition deduplicated :: "'a list \<Rightarrow> 'a list" where
  "deduplicated xs = rev (remdups (rev xs))"

definition spec_series_order :: "store \<Rightarrow> ref list \<Rightarrow> string \<Rightarrow> ref list" where
  "spec_series_order heap items brandName =
     take 10
       (case find (\<lambda>s. item_name (heap s) = Some (JStr brandName)) items of
          None \<Rightarrow> deduplicated items
        | Some focal \<Rightarrow> focal # deduplicated (filter (\<lambda>s. s \<noteq> focal) items))"

text \<open>
  The order of the names alone: the first name equal to the focal brand's moves to the
  front.
\<close>

definition focal_first :: "string \<Rightarrow> jsval list \<Rightarrow> jsval list" where
  "focal_first brandName names =
     (if brandName \<noteq> [] \<and> Some (JStr brandName) \<in> set names
      then Some (JStr brandName) # remove1 (Some (JStr brandName)) names
      else names)"

section \<open>The page\<close>

text \<open>
  The state of the page: the elements the script looks up (\<open>None\<close> where
  \<^verbatim>\<open>getElementById\<close> gives \<^verbatim>\<open>null\<close>), the variables of the script, and what the
  script has handed to the browser (its running interval timers, the requests it sent).

  An element is kept by the properties the script reads or writes: a class by a boolean,
  an input by its \<^verbatim>\<open>value\<close>, a text node by its \<^verbatim>\<open>textContent\<close>. The width of the
  progress bar and the percent label are the strings \<^verbatim>\<open>`${n}%`\<close>; they are kept by
  the number \<open>n\<close>, and the prompts label \<^verbatim>\<open>`Prompts ${used} / ${total}`\<close> by its
  two numbers.
\<close>

record button =
  disabled :: bool
  btn_textContent :: string

record error_box =
  eb_display :: string
  eb_textContent :: string

record status_bar =
  bar_hidden :: bool
  bar_display :: string

record trend_chart =
  tc_labels :: json
  tc_datasets :: "dataset list"
  tc_beginAtZero :: bool
  tc_yTitle :: string

record donut_chart =
  dc_labels :: "jsval list"
  dc_values :: "jsval list"
  dc_backgroundColor :: "string list"

record trend_state =
  labels :: json
  visibilityDatasets :: "dataset list"
  rankDatasets :: "dataset list"
  currentMetric :: string

record state =
  backdrop :: "bool option"
  step1 :: "bool option"
  step2 :: "bool option"
  nextBtn :: "button option"
  errorBox :: "error_box option"
  modalTitle :: "string option"
  brandNameStep1 :: "string option"
  brandDescStep1 :: "string option"
  brandNameStep2 :: "string option"
  brandDescStep2 :: "string option"
  brandUrlStep2 :: "string option"
  brandRegionStep2 :: "string option"
  brandLangStep2 :: "string option"
  brandTopicsStep2 :: "string option"
  analysisBar :: "status_bar option"
  analysisProgressFill :: "jsnum option"
  analysisPercentLabel :: "jsnum option"
  analysisPromptsLabel :: "(jsnum \<times> jsnum) option"
  cardBrandMentionsLabel :: "string option"
  cardBrandMentionsSubtitle :: "string option"
  cardMentionsValue :: "jstext option"
  cardBrandAvgRankLabel :: "string option"
  cardBrandAvgRankSubtitle :: "string option"
  cardAvgRankValue :: "jstext option"
  cardCitationsValue :: "jstext option"
  cardBrandCitationsSubtitle :: "string option"
  trendTabVisibility :: "bool option"
  trendTabRank :: "bool option"
  trendTopicSelect :: "(string \<times> string) list option"
  trendCanvas :: bool
  donutCanvas :: bool
  chartLibrary :: bool
  visibilityTrendChart :: "trend_chart option"
  mentionsDonutChart :: "donut_chart option"
  trendState :: trend_state
  progressInterval :: "nat option"
  visualProgress :: nat
  timers :: "nat list"
  timers_created :: nat
  requests :: "request list"

text \<open>\<^verbatim>\<open>if (el) el.prop = v\<close>: the property changes if the element exists.\<close>

fun assign :: "'a \<Rightarrow> 'a option \<Rightarrow> 'a option" where
  "assign v None = None"
| "assign v (Some old) = Some v"

text \<open>\<^verbatim>\<open>el?.value || ""\<close> and \<^verbatim>\<open>(el?.value || "").trim()\<close>\<close>

fun value_or_empty :: "string option \<Rightarrow> string" where
  "value_or_empty None = []"
| "value_or_empty (Some v) = v"

section \<open>Analysis bar and progress animation\<close>

text \<open>
  \<^verbatim>\<open>
  function updateAnalysisProgress(percent, used, total) {
    const safePercent = Math.min(Math.max(percent, 0), 100);
    if (analysisProgressFill) analysisProgressFill.style.width = `${safePercent}%`;
    if (analysisPercentLabel) analysisPercentLabel.textContent = `${Math.round(safePercent)}%`;
    if (analysisPromptsLabel) analysisPromptsLabel.textContent = `Prompts ${used} / ${total}`;
  }
  \<close>
\<close>

definition updateAnalysisProgress :: "jsnum \<Rightarrow> jsnum \<Rightarrow> jsnum \<Rightarrow> state \<Rightarrow> state" where
  "updateAnalysisProgress percent used total' st =
     (let safePercent = Math_min (Math_max percent (Fin 0)) (Fin 100)
      in st\<lparr>analysisProgressFill := assign safePercent (analysisProgressFill st),
            analysisPercentLabel := assign (Math_round safePercent) (analysisPercentLabel st),
            analysisPromptsLabel := assign (used, total') (analysisPromptsLabel st)\<rparr>)"

definition showAnalysisBar :: "state \<Rightarrow> state" where
  "showAnalysisBar st =
     st\<lparr>analysisBar := assign \<lparr>bar_hidden = False, bar_display = ''flex''\<rparr> (analysisBar st)\<rparr>"

definition hideAnalysisBar :: "state \<Rightarrow> state" where
  "hideAnalysisBar st =
     st\<lparr>analysisBar := assign \<lparr>bar_hidden = True, bar_display = ''none''\<rparr> (analysisBar st)\<rparr>"

text \<open>
  The browser's interval timers, as far as the script creates them. \<^verbatim>\<open>setInterval\<close>
  returns a handle that was never given before and is above zero; \<open>timers\<close> lists the
  handles whose callback is still scheduled. Every interval the script creates has the
  callback \<open>progressTick\<close>.
\<close>

definition setInterval :: "state \<Rightarrow> nat \<times> state" where
  "setInterval st =
     (Suc (timers_created st),
      st\<lparr>timers := timers st @ [Suc (timers_created st)],
         timers_created := Suc (timers_created st)\<rparr>)"

definition clearInterval :: "nat \<Rightarrow> state \<Rightarrow> state" where
  "clearInterval h st = st\<lparr>timers := removeAll h (timers st)\<rparr>"

text \<open>
  \<^verbatim>\<open>
  () => { if (visualProgress < 90) { visualProgress += 1;
                                     updateAnalysisProgress(visualProgress, 0, 0); } }
  \<close>
\<close>

definition progressTick :: "state \<Rightarrow> state" where
  "progressTick st =
     (if visualProgress st < 90
      then (let st1 = st\<lparr>visualProgress := visualProgress st + 1\<rparr>
            in updateAnalysisProgress (Fin (of_nat (visualProgress st1))) (Fin 0) (Fin 0) st1)
      else st)"

text \<open>
  \<^verbatim>\<open>
  function stopProgressAnimation() {
    if (progressInterval) { clearInterval(progressInterval); progressInterval = null; }
  }
  function startProgressAnimation() {
    stopProgressAnimation();
    visualProgress = 0;
    progressInterval = setInterval(() => { ... }, 120);
  }
  \<close>
\<close>

definition stopProgressAnimation :: "state \<Rightarrow> state" where
  "stopProgressAnimation st =
     (case progressInterval st of
        None \<Rightarrow> st
      | Some h \<Rightarrow> if h \<noteq> 0 then (clearInterval h st)\<lparr>progressInterval := None\<rparr> else st)"

definition startProgressAnimation :: "state \<Rightarrow> state" where
  "startProgressAnimation st =
     (let st1 = stopProgressAnimation st;
          st2 = st1\<lparr>visualProgress := 0\<rparr>;
          (h, st3) = setInterval st2
      in st3\<lparr>progressInterval := Some h\<rparr>)"

section \<open>Modal helpers\<close>

definition resetModal :: "state \<Rightarrow> state" where
  "resetModal st =
     st\<lparr>step1 := assign True (step1 st),
        step2 := assign False (step2 st),
        errorBox := assign \<lparr>eb_display = ''none'', eb_textContent = []\<rparr> (errorBox st),
        modalTitle := assign ''Add New Brand'' (modalTitle st),
        brandNameStep1 := assign [] (brandNameStep1 st),
        brandDescStep1 := assign [] (brandDescStep1 st),
        brandNameStep2 := assign [] (brandNameStep2 st),
        brandDescStep2 := assign [] (brandDescStep2 st),
        brandUrlStep2 := assign [] (brandUrlStep2 st),
        brandRegionStep2 := assign [] (brandRegionStep2 st),
        brandLangStep2 := assign [] (brandLangStep2 st),
        brandTopicsStep2 := assign [] (brandTopicsStep2 st),
        nextBtn := assign \<lparr>disabled = False, btn_textContent = ''Next''\<rparr> (nextBtn st)\<rparr>"

definition openModal :: "state \<Rightarrow> state" where
  "openModal st = (let st1 = resetModal st in st1\<lparr>backdrop := assign True (backdrop st1)\<rparr>)"

definition closeModal :: "state \<Rightarrow> state" where
  "closeModal st = st\<lparr>backdrop := assign False (backdrop st)\<rparr>"

text \<open>
  \<^verbatim>\<open>
  function showError(msg) {
    if (!errorBox) return;
    if (!msg) { errorBox.style.display = "none"; errorBox.textContent = ""; return; }
    errorBox.textContent = msg;
    errorBox.style.display = "block";
  }
  \<close>
\<close>

definition showError :: "string \<Rightarrow> state \<Rightarrow> state" where
  "showError msg st =
     (case errorBox st of
        None \<Rightarrow> st
      | Some e \<Rightarrow>
          if msg = [] then st\<lparr>errorBox := Some \<lparr>eb_display = ''none'', eb_textContent = []\<rparr>\<rparr>
          else st\<lparr>errorBox := Some \<lparr>eb_display = ''block'', eb_textContent = msg\<rparr>\<rparr>)"

section \<open>Metric cards\<close>

definition no_metrics :: metrics_data where
  "no_metrics =
     \<lparr>m_brand_share_pct = Absent, m_avg_rank = Absent, m_citations = Absent,
      m_prompt_stats = Absent, m_trend = Absent, m_donut = Absent\<rparr>"

text \<open>\<^verbatim>\<open>data?.metrics || {}\<close> and \<^verbatim>\<open>data?.brand?.name\<close>\<close>

fun metrics_of :: "analysis_data field \<Rightarrow> metrics_data" where
  "metrics_of (Val d) = (case a_metrics d of Val m \<Rightarrow> m | _ \<Rightarrow> no_metrics)"
| "metrics_of f = no_metrics"

fun brand_name_of :: "analysis_data field \<Rightarrow> string field" where
  "brand_name_of (Val d) = (case a_brand d of Val b \<Rightarrow> b_name b | _ \<Rightarrow> Absent)"
| "brand_name_of f = Absent"

text \<open>
  \<^verbatim>\<open>updateMetricCardsFromAnalysis(data, fallbackBrandName)\<close>, lines 185 to 210. The
  three metrics are numbers by the endpoint's contract, so \<^verbatim>\<open>Number(raw)\<close> is
  \<open>raw\<close>.
\<close>

definition updateMetricCardsFromAnalysis :: "analysis_data field \<Rightarrow> string \<Rightarrow> state \<Rightarrow> state" where
  "updateMetricCardsFromAnalysis dat fallbackBrandName st =
     (let brandName = or_str (brand_name_of dat) (if fallbackBrandName \<noteq> [] then fallbackBrandName else []);
          metrics = metrics_of dat;
          mentionsRaw = nullish_or (m_brand_share_pct metrics) (Fin 0);
          avgRankRaw = nullish_or (m_avg_rank metrics) (Fin 0);
          citationsRaw = nullish_or (m_citations metrics) (Fin 0);
          mentions = num_or mentionsRaw (Fin 0);
          avgRank = num_or avgRankRaw (Fin 0);
          citations = num_or citationsRaw (Fin 0);
          upper = (if brandName \<noteq> [] then brandName else ''Brand'');
          lower = (if brandName \<noteq> [] then brandName else ''brand'')
      in st\<lparr>cardBrandMentionsLabel := assign upper (cardBrandMentionsLabel st),
            cardBrandMentionsSubtitle := assign lower (cardBrandMentionsSubtitle st),
            cardMentionsValue := assign (Number_toFixed1 mentions) (cardMentionsValue st),
            cardBrandAvgRankLabel := assign upper (cardBrandAvgRankLabel st),
            cardBrandAvgRankSubtitle := assign lower (cardBrandAvgRankSubtitle st),
            cardAvgRankValue := assign (Number_toFixed1 avgRank) (cardAvgRankValue st),
            cardCitationsValue := assign (Number_toString citations) (cardCitationsValue st),
            cardBrandCitationsSubtitle := assign lower (cardBrandCitationsSubtitle st)\<rparr>)"

section \<open>Topic dropdown and charts\<close>

text \<open>
  \<^verbatim>\<open>populateTopicDropdown(topics)\<close>: the options of the select, each by its
  \<^verbatim>\<open>value\<close> and its text, are replaced by "All Topics" and one option per topic.
\<close>

definition populateTopicDropdown :: "string list \<Rightarrow> state \<Rightarrow> state" where
  "populateTopicDropdown topics st =
     st\<lparr>trendTopicSelect :=
          assign (([], ''All Topics'') # map (\<lambda>t. (t, t)) topics) (trendTopicSelect st)\<rparr>"

definition setTrendTabs :: "string \<Rightarrow> state \<Rightarrow> state" where
  "setTrendTabs metric st =
     (if trendTabVisibility st = None \<or> trendTabRank st = None then st
      else if metric = ''visibility''
      then st\<lparr>trendTabVisibility := Some True, trendTabRank := Some False\<rparr>
      else st\<lparr>trendTabVisibility := Some False, trendTabRank := Some True\<rparr>)"

text \<open>
  \<^verbatim>\<open>createOrUpdateTrendChart(metric)\<close>: a chart of the library is kept by what the script
  puts into it (labels, datasets, \<^verbatim>\<open>beginAtZero\<close> and the title of the y axis).
\<close>

definition createOrUpdateTrendChart :: "string \<Rightarrow> state \<Rightarrow> state" where
  "createOrUpdateTrendChart metric st =
     (if \<not> trendCanvas st \<or> \<not> chartLibrary st then st
      else
        (let datasets = (if metric = ''rank'' then rankDatasets (trendState st)
                         else visibilityDatasets (trendState st));
             yTitle = (if metric = ''rank'' then ''Average Rank'' else ''Share of Voice (%)'');
             chart =
               (case visibilityTrendChart st of
                  None \<Rightarrow>
                    \<lparr>tc_labels = labels (trendState st), tc_datasets = datasets,
                     tc_beginAtZero = (metric = ''visibility''), tc_yTitle = yTitle\<rparr>
                | Some c \<Rightarrow>
                    c\<lparr>tc_labels := labels (trendState st), tc_datasets := datasets,
                      tc_beginAtZero := (metric = ''visibility''), tc_yTitle := yTitle\<rparr>);
             st1 = st\<lparr>visibilityTrendChart := Some chart\<rparr>;
             st2 = st1\<lparr>trendState := (trendState st1)\<lparr>currentMetric := metric\<rparr>\<rparr>
         in setTrendTabs metric st2))"

definition createOrUpdateDonutChart :: "donut_entry list \<Rightarrow> state \<Rightarrow> state" where
  "createOrUpdateDonutChart donutData st =
     (if \<not> donutCanvas st \<or> \<not> chartLibrary st then st
      else
        (let ls = map d_label donutData;
             vs = map d_value donutData;
             bgColors = map (\<lambda>idx. chartColors ! (idx mod length chartColors)) [0..<length ls];
             chart = \<lparr>dc_labels = ls, dc_values = vs, dc_backgroundColor = bgColors\<rparr>
         in st\<lparr>mentionsDonutChart := Some chart\<rparr>))"

text \<open>
  A series array of a parsed response, as the argument of \<^verbatim>\<open>buildDatasetsFromSeries\<close>:
  the element at position \<open>i\<close> is the object with reference \<open>i\<close>.
\<close>

definition no_item :: series_item where
  "no_item = \<lparr>item_name = None, item_values = None\<rparr>"

fun store_of :: "series_field \<Rightarrow> store" where
  "store_of (SeriesArray items) = (\<lambda>r. if r < length items then items ! r else no_item)"
| "store_of f = (\<lambda>r. no_item)"

fun arg_of :: "series_field \<Rightarrow> series_arg" where
  "arg_of NoSeries = Falsy"
| "arg_of (SeriesArray items) = ArrayForm [0..<length items]"
| "arg_of (SeriesObject kvs) = ObjectForm kvs"
| "arg_of SeriesOther = OtherValue"

text \<open>\<^verbatim>\<open>trend.visibility || []\<close>\<close>

fun series_or_empty :: "series_field \<Rightarrow> series_field" where
  "series_or_empty NoSeries = SeriesArray []"
| "series_or_empty f = f"

definition no_trend :: trend_data where
  "no_trend = \<lparr>t_labels = None, t_visibility = NoSeries, t_avg_rank = NoSeries\<rparr>"

text \<open>\<^verbatim>\<open>updateChartsFromAnalysis(data, brandName, topicsText)\<close>, lines 410 to 439.\<close>

definition updateChartsFromAnalysis :: "analysis_data field \<Rightarrow> string \<Rightarrow> string \<Rightarrow> state \<Rightarrow> state" where
  "updateChartsFromAnalysis dat brandName topicsText st =
     (let metrics = metrics_of dat;
          trend = (case m_trend metrics of Val t \<Rightarrow> t | _ \<Rightarrow> no_trend);
          donut = (case m_donut metrics of Val d \<Rightarrow> d | _ \<Rightarrow> []);
          ls = (case t_labels trend of Some v \<Rightarrow> if truthy (Some v) then v else JArr [] | None \<Rightarrow> JArr []);
          visibilitySeries = series_or_empty (t_visibility trend);
          avgRankSeries = series_or_empty (t_avg_rank trend);
          st1 = st\<lparr>trendState := (trendState st)
                  \<lparr>labels := ls,
                   visibilityDatasets :=
                     buildDatasetsFromSeries (store_of visibilitySeries) (arg_of visibilitySeries) brandName,
                   rankDatasets :=
                     buildDatasetsFromSeries (store_of avgRankSeries) (arg_of avgRankSeries) brandName\<rparr>\<rparr>;
          st2 = createOrUpdateTrendChart ''visibility'' st1;
          st3 = createOrUpdateDonutChart donut st2;
          topics = parseTopics (Some (JStr topicsText))
      in populateTopicDropdown topics st3)"

section \<open>Analysis runner\<close>

text \<open>\<^verbatim>\<open>fetch(url, {method: "POST", body: JSON.stringify(...)})\<close>: the request is sent.\<close>

definition fetch :: "request \<Rightarrow> state \<Rightarrow> state" where
  "fetch req st = st\<lparr>requests := requests st @ [req]\<rparr>"

text \<open>
  An \<^verbatim>\<open>async\<close> function runs to its \<^verbatim>\<open>await fetch(...)\<close> when it is called and
  goes on when the request has settled. Each is embedded in two parts: the first returns
  the state at the \<^verbatim>\<open>await\<close> and the local constants the rest needs (\<open>None\<close> when
  the function returned before sending anything), the second takes the outcome of the
  request.

  \<^verbatim>\<open>runBrandAnalysisFromStep2()\<close>, lines 444 to 514, up to the \<^verbatim>\<open>await\<close>:
\<close>

definition runBrandAnalysisFromStep2_send :: "state \<Rightarrow> (string \<times> string) option \<times> state" where
  "runBrandAnalysisFromStep2_send st =
     (case brandNameStep2 st of
        None \<Rightarrow> (None, st)
      | Some v \<Rightarrow>
          (let brandName = trim v;
               brandDesc = trim (value_or_empty (brandDescStep2 st));
               brandUrl = trim (value_or_empty (brandUrlStep2 st));
               reg = trim (value_or_empty (brandRegionStep2 st));
               lang = trim (value_or_empty (brandLangStep2 st));
               topicsText = trim (value_or_empty (brandTopicsStep2 st))
           in if brandName = [] then (None, st)
              else
                (let st1 = showAnalysisBar st;
                     st2 = updateAnalysisProgress (Fin 0) (Fin 0) (Fin 0) st1;
                     st3 = startProgressAnimation st2;
                     st4 = fetch (BrandAnalyze
                             \<lparr>brand_name = brandName, brand_description = brandDesc,
                              brand_url = brandUrl, region = reg, language = lang,
                              initial_topics = topicsText\<rparr>) st3
                 in (Some (brandName, topicsText), st4))))"

text \<open>\<^verbatim>\<open>data?.metrics?.prompt_stats || {}\<close>\<close>

definition no_prompt_stats :: prompt_stats where
  "no_prompt_stats = \<lparr>ps_used = Absent, ps_total = Absent\<rparr>"

definition prompt_stats_of :: "analysis_data field \<Rightarrow> prompt_stats" where
  "prompt_stats_of dat =
     (case dat of
        Val d \<Rightarrow>
          (case a_metrics d of
             Val m \<Rightarrow> (case m_prompt_stats m of Val p \<Rightarrow> p | _ \<Rightarrow> no_prompt_stats)
           | _ \<Rightarrow> no_prompt_stats)
      | _ \<Rightarrow> no_prompt_stats)"

text \<open>
  After the \<^verbatim>\<open>await\<close>: a rejected \<^verbatim>\<open>fetch\<close> and a body that is not JSON stop the
  animation; any parsed body, whatever the status, is rendered.
\<close>

definition runBrandAnalysisFromStep2_settled ::
    "string \<Rightarrow> string \<Rightarrow> analysis_data field fetch_outcome \<Rightarrow> state \<Rightarrow> state" where
  "runBrandAnalysisFromStep2_settled brandName topicsText outcome st =
     (case outcome of
        NetworkError \<Rightarrow> stopProgressAnimation st
      | Response status b \<Rightarrow>
          (case b of
             InvalidJSON \<Rightarrow> stopProgressAnimation st
           | Parsed dat \<Rightarrow>
               (let promptStats = prompt_stats_of dat;
                    used = field_num_or (ps_used promptStats) (Fin 0);
                    total' = field_num_or (ps_total promptStats) (Fin 0);
                    st1 = stopProgressAnimation st;
                    st2 = updateAnalysisProgress (Fin 100) used total' st1;
                    st3 = updateMetricCardsFromAnalysis dat brandName st2
                in updateChartsFromAnalysis dat brandName topicsText st3)))"

definition runBrandAnalysisFromStep2 :: "analysis_data field fetch_outcome \<Rightarrow> state \<Rightarrow> state" where
  "runBrandAnalysisFromStep2 outcome st =
     (case runBrandAnalysisFromStep2_send st of
        (None, st1) \<Rightarrow> st1
      | (Some (brandName, topicsText), st1) \<Rightarrow>
          runBrandAnalysisFromStep2_settled brandName topicsText outcome st1)"

section \<open>Step 1 to step 2\<close>

text \<open>
  \<^verbatim>\<open>goToStep2(useRegenerate)\<close>, lines 518 to 577. The name and the description read
  from the active step:
\<close>

definition read_brandName :: "bool \<Rightarrow> state \<Rightarrow> string" where
  "read_brandName useRegenerate st =
     trim (value_or_empty (if useRegenerate then brandNameStep2 st else brandNameStep1 st))"

definition read_brandDesc :: "bool \<Rightarrow> state \<Rightarrow> string" where
  "read_brandDesc useRegenerate st =
     value_or_empty (if useRegenerate then brandDescStep2 st else brandDescStep1 st)"

definition goToStep2_send :: "bool \<Rightarrow> state \<Rightarrow> (string \<times> string) option \<times> state" where
  "goToStep2_send useRegenerate st =
     (case nextBtn st of
        None \<Rightarrow> (None, st)
      | Some btn \<Rightarrow>
          (let brandName = read_brandName useRegenerate st;
               brandDesc = read_brandDesc useRegenerate st
           in if brandName = [] then (None, showError ''Please enter a brand name.'' st)
              else
                (let st1 = st\<lparr>nextBtn := Some
                             \<lparr>disabled = True,
                              btn_textContent =
                                (if useRegenerate then ''Re-generating...'' else ''Generating...'')\<rparr>\<rparr>;
                     st2 = showError [] st1;
                     st3 = fetch (BrandLookup
                             \<lparr>lq_brand_name = brandName, lq_brand_description = brandDesc\<rparr>) st2
                 in (Some (brandName, brandDesc), st3))))"

text \<open>
  After the \<^verbatim>\<open>await\<close>. A body that is \<^verbatim>\<open>null\<close> makes \<^verbatim>\<open>data.error\<close> throw, which
  the \<^verbatim>\<open>catch\<close> block reports like a network error. The \<^verbatim>\<open>finally\<close> block runs on
  every path.
\<close>

definition goToStep2_settled ::
    "string \<Rightarrow> string \<Rightarrow> lookup_data field fetch_outcome \<Rightarrow> state \<Rightarrow> state" where
  "goToStep2_settled brandName brandDesc outcome st =
     (let st' =
            (case outcome of
               NetworkError \<Rightarrow> showError ''Something went wrong while contacting the server.'' st
             | Response status b \<Rightarrow>
                 (case b of
                    InvalidJSON \<Rightarrow>
                      showError (''Server returned an invalid response ('' @ show_nat status @ '').'') st
                  | Parsed dat \<Rightarrow>
                      (case dat of
                         Val d \<Rightarrow>
                           if \<not> resp_ok status \<or> truthy_str (r_error d)
                           then showError (or_str (r_error d) (''Backend error: '' @ show_nat status)) st
                           else
                             st\<lparr>brandNameStep2 := assign (or_str (r_brand_name d) brandName) (brandNameStep2 st),
                                brandDescStep2 := assign (or_str (r_brand_description d) brandDesc) (brandDescStep2 st),
                                brandUrlStep2 := assign (or_str (r_brand_url d) []) (brandUrlStep2 st),
                                brandRegionStep2 := assign (or_str (r_region d) []) (brandRegionStep2 st),
                                brandLangStep2 := assign (or_str (r_language d) []) (brandLangStep2 st),
                                brandTopicsStep2 := assign (or_str (r_initial_topics d) []) (brandTopicsStep2 st),
                                step1 := assign False (step1 st),
                                step2 := assign True (step2 st),
                                modalTitle := assign ''Configure Brand'' (modalTitle st)\<rparr>
                       | _ \<Rightarrow> showError ''Something went wrong while contacting the server.'' st)))
      in st'\<lparr>nextBtn := assign \<lparr>disabled = False, btn_textContent = ''Next''\<rparr> (nextBtn st')\<rparr>)"

definition goToStep2 :: "bool \<Rightarrow> lookup_data field fetch_outcome \<Rightarrow> state \<Rightarrow> state" where
  "goToStep2 useRegenerate outcome st =
     (case goToStep2_send useRegenerate st of
        (None, st1) \<Rightarrow> st1
      | (Some (brandName, brandDesc), st1) \<Rightarrow> goToStep2_settled brandName brandDesc outcome st1)"

section \<open>Event binding\<close>

text \<open>
  The click handler of the Create button, lines 614 to 619:
  \<^verbatim>\<open>closeModal(); runBrandAnalysisFromStep2();\<close>
\<close>

definition createBtn_click_send :: "state \<Rightarrow> (string \<times> string) option \<times> state" where
  "createBtn_click_send st = runBrandAnalysisFromStep2_send (closeModal st)"

definition createBtn_click :: "analysis_data field fetch_outcome \<Rightarrow> state \<Rightarrow> state" where
  "createBtn_click outcome st = runBrandAnalysisFromStep2 outcome (closeModal st)"

text \<open>
  What can happen on the page once the script is loaded: a click on an element a handler
  is bound to, a pending request that settles (with the constants its function had at the
  \<^verbatim>\<open>await\<close>), and an interval of the browser that fires. A handle that was cleared
  does not fire.
\<close>

datatype event =
    OpenClick
  | CloseClick
  | NextClick
  | RegenerateClick
  | LookupSettled string string "lookup_data field fetch_outcome"
  | BackdropClick bool
  | TabVisibilityClick
  | TabRankClick
  | TopicChange
  | CreateClick
  | AnalyzeSettled string string "analysis_data field fetch_outcome"
  | TimerFires nat

fun handle :: "event \<Rightarrow> state \<Rightarrow> state" where
  "handle OpenClick st = openModal st"
| "handle CloseClick st = closeModal st"
| "handle NextClick st = snd (goToStep2_send False st)"
| "handle RegenerateClick st = snd (goToStep2_send True st)"
| "handle (LookupSettled brandName brandDesc outcome) st =
     goToStep2_settled brandName brandDesc outcome st"
| "handle (BackdropClick on_backdrop) st = (if on_backdrop then closeModal st else st)"
| "handle TabVisibilityClick st = createOrUpdateTrendChart ''visibility'' st"
| "handle TabRankClick st = createOrUpdateTrendChart ''rank'' st"
| "handle TopicChange st = st"
| "handle CreateClick st = snd (createBtn_click_send st)"
| "handle (AnalyzeSettled brandName topicsText outcome) st =
     runBrandAnalysisFromStep2_settled brandName topicsText outcome st"
| "handle (TimerFires h) st = (if h \<in> set (timers st) then progressTick st else st)"

fun run :: "event list \<Rightarrow> state \<Rightarrow> state" where
  "run [] st = st"
| "run (e # es) st = run es (handle e st)"

text \<open>
  The variables of the script when \<^verbatim>\<open>DOMContentLoaded\<close> has run, on a page \<open>st\<close>; the
  script has created no timer and sent no request yet.
\<close>

definition DOMContentLoaded :: "state \<Rightarrow> state" where
  "DOMContentLoaded st =
     st\<lparr>visibilityTrendChart := None,
        mentionsDonutChart := None,
        trendState :=
          \<lparr>labels = JArr [], visibilityDatasets = [], rankDatasets = [],
           currentMetric = ''visibility''\<rparr>,
        progressInterval := None,
        visualProgress := 0,
        timers := [],
        requests := []\<rparr>"

text \<open>One period of the interval: every timer that is running fires once.\<close>

definition tick_all :: "state \<Rightarrow> state" where
  "tick_all st = run (map TimerFires (timers st)) st"

text \<open>A page that has every element the script looks up, with empty inputs.\<close>

definition full_page :: state where
  "full_page = DOMContentLoaded
     \<lparr>backdrop = Some False, step1 = Some True, step2 = Some False,
      nextBtn = Some \<lparr>disabled = False, btn_textContent = ''Next''\<rparr>,
      errorBox = Some \<lparr>eb_display = ''none'', eb_textContent = []\<rparr>,
      modalTitle = Some ''Add New Brand'',
      brandNameStep1 = Some [], brandDescStep1 = Some [],
      brandNameStep2 = Some [], brandDescStep2 = Some [], brandUrlStep2 = Some [],
      brandRegionStep2 = Some [], brandLangStep2 = Some [], brandTopicsStep2 = Some [],
      analysisBar = Some \<lparr>bar_hidden = True, bar_display = []\<rparr>,
      analysisProgressFill = Some (Fin 0), analysisPercentLabel = Some (Fin 0),
      analysisPromptsLabel = Some (Fin 0, Fin 0),
      cardBrandMentionsLabel = Some ''Brand'', cardBrandMentionsSubtitle = Some ''brand'',
      cardMentionsValue = Some (Text ''0.0''),
      cardBrandAvgRankLabel = Some ''Brand'', cardBrandAvgRankSubtitle = Some ''brand'',
      cardAvgRankValue = Some (Text ''0.0''),
      cardCitationsValue = Some (Text ''0''), cardBrandCitationsSubtitle = Some ''brand'',
      trendTabVisibility = Some True, trendTabRank = Some False,
      trendTopicSelect = Some [([], ''All Topics'')],
      trendCanvas = True, donutCanvas = True, chartLibrary = True,
      visibilityTrendChart = None, mentionsDonutChart = None,
      trendState = \<lparr>labels = JArr [], visibilityDatasets = [], rankDatasets = [],
                    currentMetric = ''visibility''\<rparr>,
      progressInterval = None, visualProgress = 0,
      timers = [], timers_created = 0, requests = []\<rparr>"

text \<open>
  The series array of the spec's example, \<^verbatim>\<open>[{name:"A",values:[1,2]},{name:"B",values:[3,4]}]\<close>:
  reference 0 is the first object, every other reference an object like the second.
\<close>

definition example_store :: store where
  "example_store = (\<lambda>r.
     if r = 0 then \<lparr>item_name = Some (JStr ''A''), item_values = Some (JArr [JNum (Fin 1), JNum (Fin 2)])\<rparr>
     else \<lparr>item_name = Some (JStr ''B''), item_values = Some (JArr [JNum (Fin 3), JNum (Fin 4)])\<rparr>)"

text \<open>A store of twelve series named \<open>a\<close> to \<open>l\<close>, at the references 0 to 11.\<close>

definition lettered_store :: store where
  "lettered_store = (\<lambda>r. \<lparr>item_name = Some (JStr [''abcdefghijkl'' ! r]), item_values = Some (JArr [])\<rparr>)"

text \<open>
  A property of the lookup response counts as missing when it is absent, \<^verbatim>\<open>null\<close> or
  the empty string; otherwise it is present with a value.
\<close>

definition missing :: "string field \<Rightarrow> bool" where
  "missing f = (f = Absent \<or> f = Null \<or> f = Val [])"

fun present_value :: "string field \<Rightarrow> string" where
  "present_value (Val s) = s"
| "present_value f = []"

text \<open>
  The timers of the script agree with its variable \<^verbatim>\<open>progressInterval\<close>: the handle in
  the variable is the one running timer, and no timer runs when the variable is
  \<^verbatim>\<open>null\<close>.
\<close>

definition timers_agree :: "state \<Rightarrow> bool" where
  "timers_agree st =
     (timers st = (case progressInterval st of None \<Rightarrow> [] | Some h \<Rightarrow> [h]) \<and>
      progressInterval st \<noteq> Some 0)"

text \<open>A page with the modal open on step 2 and a brand name of two spaces.\<close>

definition blank_name_page :: state where
  "blank_name_page = full_page\<lparr>backdrop := Some True, brandNameStep2 := Some ''  ''\<rparr>"

text \<open>A page with step 1 filled in, and a lookup response that only has a URL.\<close>

definition acme_page :: state where
  "acme_page = full_page\<lparr>backdrop := Some True, brandNameStep1 := Some ''  Acme '',
                         brandDescStep1 := Some ''anvils ''\<rparr>"

definition url_only :: lookup_data where
  "url_only =
     \<lparr>r_error = Absent, r_brand_name = Null, r_brand_description = Val [],
      r_brand_url = Val ''https://acme.test'', r_region = Absent, r_language = Absent,
      r_initial_topics = Absent\<rparr>"

text \<open>A page with the modal open on a filled-in step 2.\<close>

definition configured_page :: state where
  "configured_page =
     full_page\<lparr>backdrop := Some True, step1 := Some False, step2 := Some True,
               brandNameStep2 := Some '' Acme '', brandDescStep2 := Some ''anvils'',
               brandUrlStep2 := Some ''https://acme.test '', brandRegionStep2 := Some ''US'',
               brandLangStep2 := Some ''en'', brandTopicsStep2 := Some (''a'' @ [LF] @ ''b '')\<rparr>"

text \<open>
  A page whose scorecards show the figures of an earlier analysis, and a response whose
  metrics hold the average rank only.
\<close>

definition stale_cards_page :: state where
  "stale_cards_page =
     full_page\<lparr>cardMentionsValue := Some (Text ''41.5''),
               cardAvgRankValue := Some (Text ''3.2''),
               cardCitationsValue := Some (Text ''17'')\<rparr>"

definition rank_only_response :: "analysis_data field" where
  "rank_only_response =
     Val \<lparr>a_brand = Absent, a_metrics = Val (no_metrics\<lparr>m_avg_rank := Val (Fin (9 / 4))\<rparr>)\<rparr>"

text \<open>
  A response with the trend in the legacy form, a mapping from names to value arrays: both
  metrics list the brands A and B in this order, and the average rank of B is \<^verbatim>\<open>null\<close>.
  \<^verbatim>\<open>
  {"metrics": {"trend": {"labels": [],
                         "visibility": {"A": [], "B": []},
                         "avg_rank":   {"A": [], "B": null}}}}
  \<close>
\<close>

definition legacy_trend_response :: "analysis_data field" where
  "legacy_trend_response =
     Val \<lparr>a_brand = Absent,
          a_metrics = Val (no_metrics
            \<lparr>m_trend := Val
               \<lparr>t_labels = Some (JArr []),
                t_visibility = SeriesObject [(''A'', JArr []), (''B'', JArr [])],
                t_avg_rank = SeriesObject [(''A'', JArr []), (''B'', JNull)]\<rparr>\<rparr>)\<rparr>"

text \<open>The same response with the trend as arrays of series.\<close>

definition array_trend_response :: "analysis_data field" where
  "array_trend_response =
     Val \<lparr>a_brand = Absent,
          a_metrics = Val (no_metrics
            \<lparr>m_trend := Val
               \<lparr>t_labels = Some (JArr []),
                t_visibility = SeriesArray
                  [\<lparr>item_name = Some (JStr ''A''), item_values = Some (JArr [])\<rparr>,
                   \<lparr>item_name = Some (JStr ''B''), item_values = Some (JArr [])\<rparr>],
                t_avg_rank = SeriesArray
                  [\<lparr>item_name = Some (JStr ''A''), item_values = Some (JArr [])\<rparr>,
                   \<lparr>item_name = Some (JStr ''B''), item_values = Some JNull\<rparr>]\<rparr>\<rparr>)\<rparr>"

section \<open>Properties of the topic list\<close>

lemma is_space_CR: "is_space CR"
  by (simp add: is_space_def)

lemma trim_Nil: "trim [] = []"
  by (simp add: trim_def)

lemma trim_last: "trim s \<noteq> [] \<Longrightarrow> \<not> is_space (last (trim s))"
  unfolding trim_def by (simp add: last_rev hd_dropWhile)

lemma trim_hd: "trim s \<noteq> [] \<Longrightarrow> \<not> is_space (hd (trim s))"
proof -
  assume a: "trim s \<noteq> []"
  let ?u = "dropWhile is_space s"
  let ?v = "dropWhile is_space (rev ?u)"
  from a have v: "?v \<noteq> []" by (simp add: trim_def)
  then have u: "?u \<noteq> []" by (metis dropWhile.simps(1) rev.simps(1))
  have "hd (trim s) = last ?v" by (simp add: trim_def hd_rev)
  also have "\<dots> = last (rev ?u)"
    using v by (metis append_Nil2 last_appendR takeWhile_dropWhile_id)
  also have "\<dots> = hd ?u" using u by (simp add: last_rev)
  finally show ?thesis using u hd_dropWhile [of is_space s] by simp
qed

lemma trim_fixed:
  "t \<noteq> [] \<Longrightarrow> \<not> is_space (hd t) \<Longrightarrow> \<not> is_space (last t) \<Longrightarrow> trim t = t"
proof -
  assume a: "t \<noteq> []" "\<not> is_space (hd t)" "\<not> is_space (last t)"
  then have "dropWhile is_space t = t" by (cases t) auto
  moreover have "dropWhile is_space (rev t) = rev t"
    using a by (cases "rev t") (auto simp: last_rev [symmetric] simp del: last_rev)
  ultimately show ?thesis by (simp add: trim_def)
qed

lemma trim_idem: "trim (trim s) = trim s"
proof (cases "trim s = []")
  case True
  then show ?thesis by (simp only: trim_Nil)
next
  case False
  then show ?thesis by (intro trim_fixed trim_hd trim_last)
qed

lemma set_trim: "set (trim s) \<subseteq> set s"
  by (auto simp: trim_def dest!: set_dropWhileD)

lemma trim_CR: "trim (l @ [CR]) = trim l"
proof (cases "\<forall>x\<in>set l. is_space x")
  case True
  then have a: "dropWhile is_space l = []" and b: "dropWhile is_space (l @ [CR]) = []"
    by (simp_all add: is_space_CR)
  show ?thesis unfolding trim_def a b by (rule refl)
next
  case False
  then have "dropWhile is_space (l @ [CR]) = dropWhile is_space l @ [CR]"
    by (auto simp: dropWhile_append)
  then show ?thesis by (simp add: trim_def is_space_CR)
qed

lemma split_newlines_not_Nil: "split_newlines s \<noteq> []"
  by (induction s rule: split_newlines.induct) (auto split: list.splits)

lemma split_at_LF_not_Nil: "split_at_LF s \<noteq> []"
  by (induction s) (auto split: list.splits)

lemma split_at_LF_no_LF: "l \<in> set (split_at_LF s) \<Longrightarrow> LF \<notin> set l"
  by (induction s arbitrary: l) (auto split: list.splits if_splits)

text \<open>
  The pieces of \<^verbatim>\<open>split(/\r?\n/)\<close> are the lines between newline characters, each
  without the CR that stood before its newline.
\<close>

lemma split_newlines_split_at_LF:
  "list_all2 (\<lambda>l1 l2. l2 = l1 \<or> l2 = l1 @ [CR]) (split_newlines s) (split_at_LF s)"
proof (induction s rule: split_newlines.induct)
  case 1
  then show ?case by simp
next
  case (2 c)
  then show ?case by simp
next
  case (3 c d cs)
  show ?case
  proof (cases "c = LF")
    case True
    with 3 show ?thesis by simp
  next
    case notLF: False
    show ?thesis
    proof (cases "c = CR \<and> d = LF")
      case True
      with 3 notLF show ?thesis by simp
    next
      case False
      with 3 notLF
      have ih: "list_all2 (\<lambda>l1 l2. l2 = l1 \<or> l2 = l1 @ [CR])
                  (split_newlines (d # cs)) (split_at_LF (d # cs))"
        by simp
      obtain l ls where a: "split_newlines (d # cs) = l # ls"
        using split_newlines_not_Nil [of "d # cs"] by (cases "split_newlines (d # cs)") auto
      obtain m ms where b: "split_at_LF (d # cs) = m # ms"
        using split_at_LF_not_Nil [of "d # cs"] by (cases "split_at_LF (d # cs)") auto
      have "split_newlines (c # d # cs) = (c # l) # ls"
        using notLF False a by simp
      moreover have "split_at_LF (c # d # cs) = (c # m) # ms"
        using notLF by (simp only: split_at_LF.simps(2) [of c "d # cs"] b if_False list.case)
      ultimately show ?thesis using ih a b by auto
    qed
  qed
qed

lemma map_trim_related:
  "list_all2 (\<lambda>l1 l2. l2 = l1 \<or> l2 = l1 @ [CR]) xs ys \<Longrightarrow> map trim xs = map trim ys"
  by (induction xs ys rule: list_all2_induct) (auto simp: trim_CR)

lemma parseTopics_string: "parseTopics (Some (JStr s)) = spec_topic_list s"
proof (cases "s = []")
  case True
  then show ?thesis by (simp add: parseTopics_def spec_topic_list_def trim_Nil)
next
  case False
  have "map trim (split_newlines s) = map trim (split_at_LF s)"
    by (rule map_trim_related [OF split_newlines_split_at_LF])
  with False show ?thesis by (simp add: parseTopics_def spec_topic_list_def)
qed

lemma spec_topic_list_elem:
  assumes "t \<in> set (spec_topic_list s)"
  shows "t \<noteq> [] \<and> trim t = t \<and> \<not> is_space (hd t) \<and> \<not> is_space (last t) \<and> LF \<notin> set t"
proof -
  from assms obtain l where l: "l \<in> set (split_at_LF s)" and t: "t = trim l" and ne: "t \<noteq> []"
    by (auto simp: spec_topic_list_def)
  have "LF \<notin> set t" using split_at_LF_no_LF [OF l] set_trim [of l] t by auto
  then show ?thesis using ne t trim_idem [of l] trim_hd [of l] trim_last [of l] by simp
qed

text \<open>
  Claim C8. For every string, \<^verbatim>\<open>parseTopics\<close> gives the lines of the text (split at
  newlines), each trimmed, without the empty ones: it agrees with the spec's reading of
  the topic list on every string. Every topic of the result is non-empty, is its own trim,
  begins and ends with a character that is not white space, and contains no newline. The
  text \<^verbatim>\<open>"a\n\nb \n"\<close> parses to \<^verbatim>\<open>["a","b"]\<close>.
\<close>

theorem parseTopics_split_trim_drop:
  "parseTopics (Some (JStr s)) = spec_topic_list s \<and>
   (\<forall>t \<in> set (parseTopics (Some (JStr s))).
      t \<noteq> [] \<and> trim t = t \<and> \<not> is_space (hd t) \<and> \<not> is_space (last t) \<and> LF \<notin> set t) \<and>
   parseTopics (Some (JStr (''a'' @ [LF, LF] @ ''b '' @ [LF]))) = [''a'', ''b'']"
proof -
  have "t \<noteq> [] \<and> trim t = t \<and> \<not> is_space (hd t) \<and> \<not> is_space (last t) \<and> LF \<notin> set t"
    if "t \<in> set (parseTopics (Some (JStr s)))" for t
  proof -
    from that have "t \<in> set (spec_topic_list s)" by (simp only: parseTopics_string)
    then show ?thesis by (rule spec_topic_list_elem)
  qed
  moreover have "parseTopics (Some (JStr (''a'' @ [LF, LF] @ ''b '' @ [LF]))) = [''a'', ''b'']"
    by (simp add: parseTopics_def trim_def is_space_def)
  ultimately show ?thesis using parseTopics_string [of s] by blast
qed

theorem parseTopics_split_trim_drop_witness:
  "parseTopics (Some (JStr ('' x'' @ [CR, LF, CR] @ ''y z '' @ [LF, CR]))) = [''x'', ''y z''] \<and>
   spec_topic_list ('' x'' @ [CR, LF, CR] @ ''y z '' @ [LF, CR]) = [''x'', ''y z''] \<and>
   trim ''y z'' = ''y z'' \<and> \<not> is_space (hd ''y z'') \<and> \<not> is_space (last ''y z'')"
proof -
  let ?s = "'' x'' @ [CR, LF, CR] @ ''y z '' @ [LF, CR]"
  have v: "parseTopics (Some (JStr ?s)) = [''x'', ''y z'']"
    by (simp add: parseTopics_def trim_def is_space_def)
  from parseTopics_split_trim_drop [of ?s] v show ?thesis
    by (simp del: append.simps)
qed

text \<open>
  Claim C10. \<^verbatim>\<open>parseTopics\<close> tests its argument before it calls a method on it, so
  no input makes it throw and the embedding has no error result. On \<^verbatim>\<open>undefined\<close>,
  \<^verbatim>\<open>null\<close>, the empty string and every value that is not a string it returns the
  empty list, and the dropdown built from that list has the single option "All Topics"
  (with the empty value); so has the dropdown after \<^verbatim>\<open>updateChartsFromAnalysis\<close> with
  an empty topic text.
\<close>

theorem parseTopics_total_on_malformed:
  assumes "topicsText = None \<or> topicsText = Some JNull \<or> topicsText = Some (JStr []) \<or>
           typeof topicsText \<noteq> ''string''"
  shows "parseTopics topicsText = [] \<and>
         trendTopicSelect (populateTopicDropdown (parseTopics topicsText) st) =
           assign [([], ''All Topics'')] (trendTopicSelect st) \<and>
         trendTopicSelect (updateChartsFromAnalysis dat brandName [] st) =
           assign [([], ''All Topics'')] (trendTopicSelect st)"
proof -
  have a: "parseTopics topicsText = []"
    using assms by (auto simp: parseTopics_def)
  have b: "parseTopics (Some (JStr [])) = []"
    by (simp add: parseTopics_def)
  have c: "trendTopicSelect (createOrUpdateDonutChart d (createOrUpdateTrendChart m s)) = trendTopicSelect s"
    for d m s
    by (simp add: createOrUpdateDonutChart_def createOrUpdateTrendChart_def setTrendTabs_def Let_def)
  show ?thesis
    by (simp add: a b c populateTopicDropdown_def updateChartsFromAnalysis_def Let_def)
qed

theorem parseTopics_total_on_malformed_witness:
  "typeof (Some (JNum (Fin 5))) \<noteq> ''string'' \<and>
   parseTopics (Some (JNum (Fin 5))) = [] \<and>
   trendTopicSelect (populateTopicDropdown (parseTopics (Some (JNum (Fin 5)))) full_page) =
     Some [([], ''All Topics'')]"
proof -
  have h: "typeof (Some (JNum (Fin 5))) \<noteq> ''string''" by simp
  have p: "trendTopicSelect full_page = Some [([], ''All Topics'')]"
    by (simp add: full_page_def DOMContentLoaded_def)
  from parseTopics_total_on_malformed
         [where topicsText = "Some (JNum (Fin 5))" and st = full_page and dat = Null and brandName = "[]"] h p
  show ?thesis by auto
qed

section \<open>Properties of the analysis bar and the scorecards\<close>

lemma show_nat_digit: "n < 10 \<Longrightarrow> show_nat n = [digit n]"
  by (subst show_nat.simps) simp

lemma clamp_cases:
  "percent \<noteq> NaN \<Longrightarrow>
   \<exists>w. Math_min (Math_max percent (Fin 0)) (Fin 100) = Fin w \<and> 0 \<le> w \<and> w \<le> 100 \<and>
       (\<forall>x. percent = Fin x \<longrightarrow> w = max 0 (min 100 x))"
  by (cases percent) (auto simp: Math_min_def Math_max_def)

lemma round_bounds:
  fixes w :: rat
  assumes "0 \<le> w" "w \<le> 100"
  shows "0 \<le> \<lfloor>w + 1 / 2\<rfloor> \<and> \<lfloor>w + 1 / 2\<rfloor> \<le> 100"
proof -
  have "0 \<le> \<lfloor>w + 1 / 2\<rfloor>" using assms by simp
  moreover have "\<lfloor>w + 1 / 2\<rfloor> \<le> 100"
  proof -
    have "w + 1 / 2 < 101" using assms by simp
    then have "\<lfloor>w + 1 / 2\<rfloor> < 101" by (simp add: floor_less_iff)
    then show ?thesis by simp
  qed
  ultimately show ?thesis by simp
qed

text \<open>
  Claim C7. For every number \<open>percent\<close> (a NaN is not one), negative or above 100 included,
  \<^verbatim>\<open>updateAnalysisProgress\<close> displays a clamped value: the width of the bar is \<open>w%\<close> and
  the label \<open>l%\<close> with \<open>w\<close> and \<open>l\<close> between 0 and 100 inclusive, where \<open>w\<close> is
  \<open>percent\<close> cut to the range and \<open>l\<close> is \<open>w\<close> rounded.
\<close>

theorem updateAnalysisProgress_clamped:
  assumes "percent \<noteq> NaN"
  shows "\<exists>w l. 0 \<le> w \<and> w \<le> 100 \<and> 0 \<le> l \<and> l \<le> 100 \<and>
           (\<forall>x. percent = Fin x \<longrightarrow> w = max 0 (min 100 x)) \<and>
           l = \<lfloor>w + 1 / 2\<rfloor> \<and>
           analysisProgressFill (updateAnalysisProgress percent used total' st) =
             assign (Fin w) (analysisProgressFill st) \<and>
           analysisPercentLabel (updateAnalysisProgress percent used total' st) =
             assign (Fin (of_int l)) (analysisPercentLabel st)"
proof -
  from clamp_cases [OF assms] obtain w where
    w: "Math_min (Math_max percent (Fin 0)) (Fin 100) = Fin w" "0 \<le> w" "w \<le> 100"
       "\<forall>x. percent = Fin x \<longrightarrow> w = max 0 (min 100 x)"
    by blast
  have "analysisProgressFill (updateAnalysisProgress percent used total' st) =
          assign (Fin w) (analysisProgressFill st)"
    and "analysisPercentLabel (updateAnalysisProgress percent used total' st) =
          assign (Fin (of_int \<lfloor>w + 1 / 2\<rfloor>)) (analysisPercentLabel st)"
    by (simp_all add: updateAnalysisProgress_def w(1))
  with w round_bounds [OF w(2,3)] show ?thesis by blast
qed

theorem updateAnalysisProgress_clamped_witness:
  "analysisProgressFill (updateAnalysisProgress (Fin 150) (Fin 0) (Fin 0) full_page) = Some (Fin 100) \<and>
   analysisPercentLabel (updateAnalysisProgress (Fin 150) (Fin 0) (Fin 0) full_page) = Some (Fin 100) \<and>
   analysisProgressFill (updateAnalysisProgress (Fin (133 / 4)) (Fin 0) (Fin 0) full_page) = Some (Fin (133 / 4)) \<and>
   analysisPercentLabel (updateAnalysisProgress (Fin (133 / 4)) (Fin 0) (Fin 0) full_page) = Some (Fin 33)"
proof -
  have p: "analysisProgressFill full_page = Some (Fin 0)" "analysisPercentLabel full_page = Some (Fin 0)"
    by (simp_all add: full_page_def DOMContentLoaded_def)
  have f: "\<lfloor>(100::rat) + 1 / 2\<rfloor> = 100" "\<lfloor>(133 / 4 :: rat) + 1 / 2\<rfloor> = 33"
    by (simp_all add: floor_eq_iff)
  have n: "Fin 150 \<noteq> NaN" "Fin (133 / 4) \<noteq> NaN" by simp_all
  from updateAnalysisProgress_clamped [OF n(1), of "Fin 0" "Fin 0" full_page]
  obtain w l where a:
    "\<forall>x. Fin 150 = Fin x \<longrightarrow> w = max 0 (min 100 x)" "l = \<lfloor>w + 1 / 2\<rfloor>"
    "analysisProgressFill (updateAnalysisProgress (Fin 150) (Fin 0) (Fin 0) full_page) =
       assign (Fin w) (analysisProgressFill full_page)"
    "analysisPercentLabel (updateAnalysisProgress (Fin 150) (Fin 0) (Fin 0) full_page) =
       assign (Fin (of_int l)) (analysisPercentLabel full_page)"
    by blast
  from a(1) have "w = max 0 (min 100 150)" by blast
  then have w: "w = 100" by simp
  from updateAnalysisProgress_clamped [OF n(2), of "Fin 0" "Fin 0" full_page]
  obtain v k where b:
    "\<forall>x. Fin (133 / 4) = Fin x \<longrightarrow> v = max 0 (min 100 x)" "k = \<lfloor>v + 1 / 2\<rfloor>"
    "analysisProgressFill (updateAnalysisProgress (Fin (133 / 4)) (Fin 0) (Fin 0) full_page) =
       assign (Fin v) (analysisProgressFill full_page)"
    "analysisPercentLabel (updateAnalysisProgress (Fin (133 / 4)) (Fin 0) (Fin 0) full_page) =
       assign (Fin (of_int k)) (analysisPercentLabel full_page)"
    by blast
  from b(1) have "v = max 0 (min 100 (133 / 4))" by blast
  then have v: "v = 133 / 4" by simp
  show ?thesis
    unfolding a(3,4) b(3,4) a(2) b(2) w v f p by simp
qed

text \<open>The one value of type number that is not clamped: a NaN is displayed as it is.\<close>

lemma updateAnalysisProgress_NaN:
  "analysisProgressFill (updateAnalysisProgress NaN used total' st) =
     assign NaN (analysisProgressFill st)"
  by (simp add: updateAnalysisProgress_def Math_max_def Math_min_def)

lemma toFixed1_zero: "Number_toFixed1 (Fin 0) = Text ''0.0''"
  by (simp add: show_nat_digit digit_def)

lemma toString_zero: "Number_toString (Fin 0) = Text ''0''"
  by (simp add: show_nat_digit digit_def)

text \<open>
  Claim C9. When \<^verbatim>\<open>brand_share_pct\<close>, \<^verbatim>\<open>avg_rank\<close> or \<^verbatim>\<open>citations\<close> is absent from the
  metrics of the response (or is \<^verbatim>\<open>null\<close>, or the response has no metrics at all), its
  scorecard is rendered with the default 0: whatever the card showed before, it now shows
  \<^verbatim>\<open>"0.0"\<close> for the share and for the average rank and \<^verbatim>\<open>"0"\<close> for the citations. (A
  card the page does not have stays absent.)
\<close>

theorem scorecards_default_zero:
  "(nullish (m_brand_share_pct (metrics_of dat)) \<longrightarrow>
      cardMentionsValue (updateMetricCardsFromAnalysis dat fallbackBrandName st) =
        (case cardMentionsValue st of None \<Rightarrow> None | Some shown \<Rightarrow> Some (Text ''0.0''))) \<and>
   (nullish (m_avg_rank (metrics_of dat)) \<longrightarrow>
      cardAvgRankValue (updateMetricCardsFromAnalysis dat fallbackBrandName st) =
        (case cardAvgRankValue st of None \<Rightarrow> None | Some shown \<Rightarrow> Some (Text ''0.0''))) \<and>
   (nullish (m_citations (metrics_of dat)) \<longrightarrow>
      cardCitationsValue (updateMetricCardsFromAnalysis dat fallbackBrandName st) =
        (case cardCitationsValue st of None \<Rightarrow> None | Some shown \<Rightarrow> Some (Text ''0'')))"
proof -
  have z: "num_or (Fin 0) (Fin 0) = Fin 0" by (simp add: num_or_def)
  have n: "nullish f \<Longrightarrow> nullish_or f (Fin 0) = Fin 0" for f :: "jsnum field"
    by (cases f) simp_all
  show ?thesis
    by (cases "cardMentionsValue st"; cases "cardAvgRankValue st"; cases "cardCitationsValue st")
       (simp_all add: updateMetricCardsFromAnalysis_def Let_def n z show_nat_digit digit_def)
qed

theorem scorecards_default_zero_witness:
  "cardMentionsValue stale_cards_page = Some (Text ''41.5'') \<and>
   cardAvgRankValue stale_cards_page = Some (Text ''3.2'') \<and>
   cardCitationsValue stale_cards_page = Some (Text ''17'') \<and>
   cardMentionsValue (updateMetricCardsFromAnalysis rank_only_response ''Acme'' stale_cards_page) =
     Some (Text ''0.0'') \<and>
   cardCitationsValue (updateMetricCardsFromAnalysis rank_only_response ''Acme'' stale_cards_page) =
     Some (Text ''0'') \<and>
   cardAvgRankValue (updateMetricCardsFromAnalysis Null ''Acme'' stale_cards_page) = Some (Text ''0.0'')"
proof -
  have h: "nullish (m_brand_share_pct (metrics_of rank_only_response))"
          "nullish (m_citations (metrics_of rank_only_response))"
          "nullish (m_avg_rank (metrics_of Null))"
    by (simp_all add: rank_only_response_def no_metrics_def)
  have p: "cardMentionsValue stale_cards_page = Some (Text ''41.5'')"
          "cardAvgRankValue stale_cards_page = Some (Text ''3.2'')"
          "cardCitationsValue stale_cards_page = Some (Text ''17'')"
    by (simp_all add: stale_cards_page_def)
  from scorecards_default_zero [of rank_only_response "''Acme''" stale_cards_page]
       scorecards_default_zero [of Null "''Acme''" stale_cards_page] h p
  show ?thesis by simp
qed

section \<open>Properties of the chart datasets\<close>

lemma deduplicated_Nil: "deduplicated [] = []"
  by (simp add: deduplicated_def)

lemma deduplicated_Cons: "deduplicated (x # xs) = x # filter (\<lambda>y. y \<noteq> x) (deduplicated xs)"
proof -
  have "remdups (ys @ [x]) = filter (\<lambda>y. y \<noteq> x) (remdups ys) @ [x]" for ys
    by (induction ys) auto
  then show ?thesis
    by (simp add: deduplicated_def rev_filter)
qed

lemma deduplicated_filter: "deduplicated (filter P xs) = filter P (deduplicated xs)"
  by (simp add: deduplicated_def remdups_filter rev_filter)

lemma set_deduplicated: "set (deduplicated xs) = set xs"
  by (simp add: deduplicated_def)

lemma distinct_deduplicated: "distinct (deduplicated xs)"
  by (simp add: deduplicated_def)

lemma deduplicated_distinct: "distinct xs \<Longrightarrow> deduplicated xs = xs"
  by (simp add: deduplicated_def distinct_remdups_id)

lemma length_deduplicated: "length (deduplicated xs) = card (set xs)"
  using distinct_card [OF distinct_deduplicated, of xs] by (simp add: set_deduplicated)

lemma push_missing_eq:
  "push_missing acc xs = acc @ filter (\<lambda>x. x \<notin> set acc) (deduplicated xs)"
proof (induction xs arbitrary: acc)
  case Nil
  then show ?case by (simp add: deduplicated_Nil)
next
  case (Cons x xs)
  show ?case
  proof (cases "x \<in> set acc")
    case True
    have "filter (\<lambda>y. y \<notin> set acc) (filter (\<lambda>y. y \<noteq> x) (deduplicated xs)) =
          filter (\<lambda>y. y \<notin> set acc) (deduplicated xs)"
      using True by (auto intro: filter_cong)
    with True Cons show ?thesis by (simp add: deduplicated_Cons)
  next
    case False
    have "filter (\<lambda>y. y \<notin> set (acc @ [x])) (deduplicated xs) =
          filter (\<lambda>y. y \<notin> set acc) (filter (\<lambda>y. y \<noteq> x) (deduplicated xs))"
      by (auto intro: filter_cong)
    with False Cons [of "acc @ [x]"] show ?thesis by (simp add: deduplicated_Cons)
  qed
qed

lemma find_in_set: "find P xs = Some m \<Longrightarrow> m \<in> set xs \<and> P m"
  by (induction xs) (auto split: if_splits)

lemma ordered_eq_spec:
  assumes "brandName \<noteq> []"
  shows "take 10 (push_missing
            (case find (\<lambda>s. item_name (heap s) = Some (JStr brandName)) items of
               None \<Rightarrow> [] | Some main \<Rightarrow> [main]) items)
         = spec_series_order heap items brandName"
proof (cases "find (\<lambda>s. item_name (heap s) = Some (JStr brandName)) items")
  case None
  then show ?thesis by (simp add: spec_series_order_def push_missing_eq)
next
  case (Some m)
  have "filter (\<lambda>x. x \<noteq> m) (deduplicated items) = deduplicated (filter (\<lambda>s. s \<noteq> m) items)"
    by (simp add: deduplicated_filter)
  with Some show ?thesis by (simp add: spec_series_order_def push_missing_eq)
qed


lemma find_None_iff': "find P xs = None \<longleftrightarrow> (\<forall>x\<in>set xs. \<not> P x)"
  by (induction xs) auto

lemma length_spec_series_order:
  "length (spec_series_order heap items brandName) = min 10 (card (set items))"
proof (cases "find (\<lambda>s. item_name (heap s) = Some (JStr brandName)) items")
  case None
  then show ?thesis by (simp add: spec_series_order_def length_deduplicated min.commute)
next
  case (Some m)
  then have m: "m \<in> set items" by (auto dest: find_in_set)
  have "card (set (filter (\<lambda>s. s \<noteq> m) items)) = card (set items - {m})"
    by (rule arg_cong [where f = card]) auto
  also have "\<dots> = card (set items) - 1" using m by simp
  finally have "Suc (card (set (filter (\<lambda>s. s \<noteq> m) items))) = card (set items)"
    using m card_gt_0_iff [of "set items"] by (cases "card (set items)") auto
  with Some show ?thesis
    by (simp add: spec_series_order_def length_deduplicated min.commute)
qed

lemma spec_series_order_focal:
  assumes "s \<in> set items" "item_name (heap s) = Some (JStr brandName)"
  shows "\<exists>m rest. spec_series_order heap items brandName = m # rest \<and>
                  item_name (heap m) = Some (JStr brandName) \<and> m \<in> set items"
proof (cases "find (\<lambda>s. item_name (heap s) = Some (JStr brandName)) items")
  case None
  with assms show ?thesis by (auto simp: find_None_iff')
next
  case (Some m)
  then have "m \<in> set items \<and> item_name (heap m) = Some (JStr brandName)"
    by (auto dest: find_in_set)
  with Some show ?thesis by (simp add: spec_series_order_def)
qed

lemma buildDatasets_array:
  "buildDatasetsFromSeries heap (ArrayForm items) brandName =
     map (\<lambda>(idx, item). dataset_of_item heap idx item)
       (enumerate 0 (take 10 (push_missing
          (if brandName \<noteq> []
           then (case find (\<lambda>s. item_name (heap s) = Some (JStr brandName)) items of
                   None \<Rightarrow> [] | Some main \<Rightarrow> [main])
           else []) items)))"
  by (simp add: buildDatasetsFromSeries_def Let_def)

lemma label_dataset_of_item: "label (dataset_of_item heap idx item) = item_name (heap item)"
  by (simp add: dataset_of_item_def mk_dataset_def)

lemma map_label_enumerate:
  "map label (map (\<lambda>(idx, item). dataset_of_item heap idx item) (enumerate n xs)) =
   map (\<lambda>s. item_name (heap s)) xs"
  by (induction xs arbitrary: n) (simp_all add: label_dataset_of_item)

text \<open>
  Claim C1. For an array of series and a focal brand name (a non-empty string: the script
  treats the empty name as no focal brand, and the analysis runner never passes it),
  \<^verbatim>\<open>buildDatasetsFromSeries\<close> returns the datasets of the spec's order: the first series
  whose name is the focal brand's, if there is one, then the other series in source order,
  each series once, cut to ten. So the labels are the names in that order; there are
  \<open>min 10 n\<close> datasets for \<open>n\<close> different series, exactly ten for an array of more than
  ten different series; the first label is the focal brand's name when a series has it;
  and the spec's example gives the labels B, A.
\<close>

theorem buildDatasetsFromSeries_array_form:
  assumes "brandName \<noteq> []"
  shows "buildDatasetsFromSeries heap (ArrayForm items) brandName =
           map (\<lambda>(idx, item). dataset_of_item heap idx item)
             (enumerate 0 (spec_series_order heap items brandName)) \<and>
         map label (buildDatasetsFromSeries heap (ArrayForm items) brandName) =
           map (\<lambda>s. item_name (heap s)) (spec_series_order heap items brandName) \<and>
         length (buildDatasetsFromSeries heap (ArrayForm items) brandName) = min 10 (card (set items)) \<and>
         (distinct items \<and> 10 < length items \<longrightarrow>
            length (buildDatasetsFromSeries heap (ArrayForm items) brandName) = 10) \<and>
         ((\<exists>s \<in> set items. item_name (heap s) = Some (JStr brandName)) \<longrightarrow>
            (\<exists>d ds. buildDatasetsFromSeries heap (ArrayForm items) brandName = d # ds \<and>
                    label d = Some (JStr brandName))) \<and>
         map label (buildDatasetsFromSeries example_store (ArrayForm [0, 1]) ''B'') =
           [Some (JStr ''B''), Some (JStr ''A'')]"
proof -
  let ?b = "buildDatasetsFromSeries heap (ArrayForm items) brandName"
  let ?o = "spec_series_order heap items brandName"
  have eq: "?b = map (\<lambda>(idx, item). dataset_of_item heap idx item) (enumerate 0 ?o)"
    using assms ordered_eq_spec [OF assms, of heap items] by (simp add: buildDatasets_array)
  have lab: "map label ?b = map (\<lambda>s. item_name (heap s)) ?o"
    unfolding eq by (rule map_label_enumerate)
  have len: "length ?b = min 10 (card (set items))"
    unfolding eq by (simp add: length_spec_series_order)
  have ten: "length ?b = 10" if "distinct items" "10 < length items"
    using that len by (simp add: distinct_card)
  have first: "\<exists>d ds. ?b = d # ds \<and> label d = Some (JStr brandName)"
    if "\<exists>s \<in> set items. item_name (heap s) = Some (JStr brandName)"
  proof -
    from that spec_series_order_focal obtain m rest where
      m: "?o = m # rest" "item_name (heap m) = Some (JStr brandName)"
      by blast
    show ?thesis unfolding eq m(1) by (simp add: enumerate_simps label_dataset_of_item m(2))
  qed
  have ex: "map label (buildDatasetsFromSeries example_store (ArrayForm [0, 1]) ''B'') =
              [Some (JStr ''B''), Some (JStr ''A'')]"
    by (simp add: buildDatasets_array example_store_def label_dataset_of_item)
  from eq lab len ten first ex show ?thesis by blast
qed


theorem buildDatasetsFromSeries_array_form_witness:
  "map label (buildDatasetsFromSeries lettered_store (ArrayForm [0, 1, 2, 3, 4, 5, 6, 7, 8, 9, 10, 11]) ''l'') =
     map (\<lambda>c. Some (JStr [c])) ''labcdefghi'' \<and>
   length (buildDatasetsFromSeries lettered_store (ArrayForm [0, 1, 2, 3, 4, 5, 6, 7, 8, 9, 10, 11]) ''l'') = 10 \<and>
   map label (buildDatasetsFromSeries example_store (ArrayForm [0, 1]) ''B'') =
     [Some (JStr ''B''), Some (JStr ''A'')]"
proof -
  let ?items = "[0, 1, 2, 3, 4, 5, 6, 7, 8, 9, 10, 11] :: nat list"
  have b: "''l'' \<noteq> []" by simp
  have d: "distinct ?items \<and> 10 < length ?items" by simp
  have o: "spec_series_order lettered_store ?items ''l'' = [11, 0, 1, 2, 3, 4, 5, 6, 7, 8]"
    by (simp add: spec_series_order_def deduplicated_def lettered_store_def)
  have n: "map (\<lambda>s. item_name (lettered_store s)) [11, 0, 1, 2, 3, 4, 5, 6, 7, 8] =
           map (\<lambda>c. Some (JStr [c])) ''labcdefghi''"
    by (simp add: lettered_store_def)
  note t = buildDatasetsFromSeries_array_form [OF b, of lettered_store ?items]
  from t have l: "map label (buildDatasetsFromSeries lettered_store (ArrayForm ?items) ''l'') =
                  map (\<lambda>s. item_name (lettered_store s)) (spec_series_order lettered_store ?items ''l'')"
    by (elim conjE) assumption
  from t have "distinct ?items \<and> 10 < length ?items \<longrightarrow>
               length (buildDatasetsFromSeries lettered_store (ArrayForm ?items) ''l'') = 10"
    by (elim conjE) assumption
  with d have k: "length (buildDatasetsFromSeries lettered_store (ArrayForm ?items) ''l'') = 10"
    by (rule rev_mp)
  from t have e: "map label (buildDatasetsFromSeries example_store (ArrayForm [0, 1]) ''B'') =
                  [Some (JStr ''B''), Some (JStr ''A'')]"
    by (elim conjE) assumption
  from l k e show ?thesis unfolding o n by (intro conjI)
qed

text \<open>
  With the empty string for \<open>brandName\<close> no series moves: the datasets are those of the
  source order, each series once, cut to ten.
\<close>

lemma buildDatasetsFromSeries_no_focal_brand:
  "buildDatasetsFromSeries heap (ArrayForm items) [] =
     map (\<lambda>(idx, item). dataset_of_item heap idx item) (enumerate 0 (take 10 (deduplicated items)))"
  by (simp add: buildDatasets_array push_missing_eq)

lemma find_map_first:
  "find (\<lambda>x. f x = t) xs = Some m \<Longrightarrow> map f (remove1 m xs) = remove1 t (map f xs)"
proof (induction xs)
  case Nil
  then show ?case by simp
next
  case (Cons x xs)
  show ?case
  proof (cases "f x = t")
    case True
    with Cons.prems show ?thesis by simp
  next
    case False
    with Cons.prems have fm: "find (\<lambda>x. f x = t) xs = Some m" by simp
    then have "f m = t" by (auto dest: find_in_set)
    with False have "x \<noteq> m" by auto
    with False Cons.IH [OF fm] show ?thesis by simp
  qed
qed

lemma names_of_ordered:
  assumes "distinct items"
  shows "map (\<lambda>s. item_name (heap s))
           (push_missing
              (if brandName \<noteq> []
               then (case find (\<lambda>s. item_name (heap s) = Some (JStr brandName)) items of
                       None \<Rightarrow> [] | Some main \<Rightarrow> [main])
               else []) items) =
         focal_first brandName (map (\<lambda>s. item_name (heap s)) items)"
proof (cases "brandName \<noteq> [] \<and> find (\<lambda>s. item_name (heap s) = Some (JStr brandName)) items \<noteq> None")
  case False
  then have "brandName = [] \<or> Some (JStr brandName) \<notin> set (map (\<lambda>s. item_name (heap s)) items)"
    by (auto simp: find_None_iff')
  then have f: "focal_first brandName (map (\<lambda>s. item_name (heap s)) items) =
                map (\<lambda>s. item_name (heap s)) items"
    unfolding focal_first_def by (intro if_not_P) blast
  have o: "(if brandName \<noteq> []
            then (case find (\<lambda>s. item_name (heap s) = Some (JStr brandName)) items of
                    None \<Rightarrow> [] | Some main \<Rightarrow> [main])
            else []) = []"
    using False by (cases "find (\<lambda>s. item_name (heap s) = Some (JStr brandName)) items") simp_all
  have p: "push_missing [] items = items"
    using assms by (simp add: push_missing_eq deduplicated_distinct)
  show ?thesis unfolding o p f by (rule refl)
next
  case True
  then obtain m where m: "find (\<lambda>s. item_name (heap s) = Some (JStr brandName)) items = Some m"
    by auto
  then have mi: "m \<in> set items" "item_name (heap m) = Some (JStr brandName)"
    by (auto dest: find_in_set)
  have "filter (\<lambda>x. x \<noteq> m) xs = removeAll m xs" for xs
    by (induction xs) auto
  then have "filter (\<lambda>x. x \<noteq> m) items = remove1 m items"
    using assms by (simp add: distinct_remove1_removeAll)
  moreover have "map (\<lambda>s. item_name (heap s)) (remove1 m items) =
                 remove1 (Some (JStr brandName)) (map (\<lambda>s. item_name (heap s)) items)"
    using find_map_first [of "\<lambda>s. item_name (heap s)" "Some (JStr brandName)" items m] m by simp
  moreover have "Some (JStr brandName) \<in> set (map (\<lambda>s. item_name (heap s)) items)"
    using mi by force
  ultimately show ?thesis
    using True m mi assms
    by (simp add: push_missing_eq deduplicated_distinct focal_first_def)
qed

lemma labels_array_distinct:
  assumes "distinct items"
  shows "map label (buildDatasetsFromSeries heap (ArrayForm items) brandName) =
         take 10 (focal_first brandName (map (\<lambda>s. item_name (heap s)) items))"
  unfolding buildDatasets_array map_label_enumerate take_map names_of_ordered [OF assms, symmetric]
  by (rule refl)


lemma labels_object:
  "map label (buildDatasetsFromSeries heap (ObjectForm kvs) brandName) =
     map (\<lambda>n. Some (JStr n))
       (take 10 (push_missing
          (if brandName \<noteq> [] \<and> truthy_member (get_member kvs brandName) then [brandName] else [])
          (map fst kvs)))"
proof -
  have "map label (map (\<lambda>(idx, name). mk_dataset (Some (JStr name)) (g name) idx) (enumerate n xs)) =
        map (\<lambda>n. Some (JStr n)) xs" for g n and xs :: "string list"
    by (induction xs arbitrary: n) (simp_all add: mk_dataset_def)
  then show ?thesis by (simp add: buildDatasetsFromSeries_def Let_def)
qed

lemma truthy_member_all_truthy:
  assumes "\<forall>v \<in> snd ` set kvs. truthy (Some v)"
  shows "truthy_member (get_member kvs k) \<longleftrightarrow> k \<in> set (map fst kvs) \<or> k \<in> set Object_prototype_names"
proof (cases "map_of kvs k")
  case None
  then have "k \<notin> fst ` set kvs" by (simp add: map_of_eq_None_iff)
  with None show ?thesis by (simp add: get_member_def)
next
  case (Some v)
  then have "(k, v) \<in> set kvs" by (rule map_of_SomeD)
  then have "truthy (Some v)" and "k \<in> set (map fst kvs)" using assms by force+
  with Some show ?thesis by (simp add: get_member_def)
qed

lemma trendState_updateCharts:
  "visibilityDatasets (trendState (updateChartsFromAnalysis dat brandName topicsText st)) =
     (let trend = (case m_trend (metrics_of dat) of Val t \<Rightarrow> t | _ \<Rightarrow> no_trend);
          v = series_or_empty (t_visibility trend)
      in buildDatasetsFromSeries (store_of v) (arg_of v) brandName) \<and>
   rankDatasets (trendState (updateChartsFromAnalysis dat brandName topicsText st)) =
     (let trend = (case m_trend (metrics_of dat) of Val t \<Rightarrow> t | _ \<Rightarrow> no_trend);
          r = series_or_empty (t_avg_rank trend)
      in buildDatasetsFromSeries (store_of r) (arg_of r) brandName)"
  by (simp add: updateChartsFromAnalysis_def populateTopicDropdown_def createOrUpdateDonutChart_def
        createOrUpdateTrendChart_def setTrendTabs_def Let_def)

lemma map_store_of: "map (\<lambda>s. item_name (store_of (SeriesArray items) s)) [0..<length items] = map item_name items"
  by (auto intro: nth_equalityI)

text \<open>
  Arrays of series keep the order across the two metrics: two arrays that present the same
  names in the same order (each an array of different objects, as parsed arrays are) give
  the same labels, whatever the values of the series are; so do \<^verbatim>\<open>trend.visibility\<close> and
  \<^verbatim>\<open>trend.avg_rank\<close> of one response in \<^verbatim>\<open>updateChartsFromAnalysis\<close>.
\<close>

lemma array_series_order_stable:
  assumes "distinct vis" and "distinct rank"
    and "map (\<lambda>s. item_name (h1 s)) vis = map (\<lambda>s. item_name (h2 s)) rank"
  shows "map label (buildDatasetsFromSeries h1 (ArrayForm vis) brandName) =
         map label (buildDatasetsFromSeries h2 (ArrayForm rank) brandName)"
  using assms by (simp add: labels_array_distinct)

lemma response_array_series_order_stable:
  assumes "m_trend (metrics_of dat) = Val trend"
    and "t_visibility trend = SeriesArray vs" and "t_avg_rank trend = SeriesArray rs"
    and "map item_name vs = map item_name rs"
  shows "map label (visibilityDatasets (trendState (updateChartsFromAnalysis dat brandName topicsText st))) =
         map label (rankDatasets (trendState (updateChartsFromAnalysis dat brandName topicsText st)))"
proof -
  have "map label (buildDatasetsFromSeries (store_of (SeriesArray vs)) (ArrayForm [0..<length vs]) brandName) =
        map label (buildDatasetsFromSeries (store_of (SeriesArray rs)) (ArrayForm [0..<length rs]) brandName)"
    using assms(4) by (simp only: labels_array_distinct distinct_upt map_store_of)
  with assms show ?thesis
    by (simp add: trendState_updateCharts)
qed

text \<open>
  The legacy mapping keeps the order as long as the values are truthy: the test
  \<^verbatim>\<open>brandName && series[brandName]\<close> then depends on the names and the focal brand only.
\<close>

lemma legacy_series_order_stable_truthy:
  assumes "map fst kv = map fst kr"
    and "\<forall>v \<in> snd ` set kv. truthy (Some v)" and "\<forall>v \<in> snd ` set kr. truthy (Some v)"
  shows "map label (buildDatasetsFromSeries h1 (ObjectForm kv) brandName) =
         map label (buildDatasetsFromSeries h2 (ObjectForm kr) brandName)"
proof -
  have "truthy_member (get_member kv brandName) = truthy_member (get_member kr brandName)"
    using assms by (simp add: truthy_member_all_truthy)
  with assms(1) show ?thesis
    by (simp add: labels_object)
qed

lemma array_trend_response_labels:
  "map label (visibilityDatasets (trendState
       (updateChartsFromAnalysis array_trend_response ''B'' [] full_page))) =
     [Some (JStr ''B''), Some (JStr ''A'')] \<and>
   map label (rankDatasets (trendState
       (updateChartsFromAnalysis array_trend_response ''B'' [] full_page))) =
     [Some (JStr ''B''), Some (JStr ''A'')]"
  by (simp add: trendState_updateCharts array_trend_response_def no_metrics_def Let_def
        buildDatasets_array label_dataset_of_item)

text \<open>
  Claim C4 says that the order of the series is the same for the two metrics when both
  present the same names in the same order. The array branch does that (above). The legacy
  branch of \<^verbatim>\<open>buildDatasetsFromSeries\<close> does not: it moves the focal brand to the front only
  when \<^verbatim>\<open>series[brandName]\<close> is truthy, yet it still emits a dataset for a name whose value
  is falsy (\<^verbatim>\<open>series[name] || []\<close>). For the response with visibility
  \<^verbatim>\<open>{"A": [], "B": []}\<close> and average rank \<^verbatim>\<open>{"A": [], "B": null}\<close> and the focal brand B,
  \<^verbatim>\<open>updateChartsFromAnalysis\<close> stores the visibility datasets in the order B, A and the
  rank datasets in the order A, B.
\<close>

theorem legacy_mapping_order_differs:
  "map label (visibilityDatasets (trendState
       (updateChartsFromAnalysis legacy_trend_response ''B'' [] full_page))) =
     [Some (JStr ''B''), Some (JStr ''A'')] \<and>
   map label (rankDatasets (trendState
       (updateChartsFromAnalysis legacy_trend_response ''B'' [] full_page))) =
     [Some (JStr ''A''), Some (JStr ''B'')] \<and>
   map data (rankDatasets (trendState
       (updateChartsFromAnalysis legacy_trend_response ''B'' [] full_page))) =
     [Data (JArr []), Data (JArr [])]"
  by (simp add: trendState_updateCharts legacy_trend_response_def no_metrics_def Let_def
        buildDatasetsFromSeries_def get_member_def mk_dataset_def)

section \<open>Properties of the wizard\<close>

lemma showError_frame:
  "requests (showError msg st) = requests st"
  "timers (showError msg st) = timers st"
  "progressInterval (showError msg st) = progressInterval st"
  "visualProgress (showError msg st) = visualProgress st"
  "nextBtn (showError msg st) = nextBtn st"
  by (simp_all add: showError_def split: option.splits)

lemma showError_errorBox:
  "msg \<noteq> [] \<Longrightarrow>
   errorBox (showError msg st) = assign \<lparr>eb_display = ''block'', eb_textContent = msg\<rparr> (errorBox st)"
  by (cases "errorBox st") (simp_all add: showError_def)

lemma goToStep2_settled_frame:
  "requests (goToStep2_settled n d outcome st) = requests st"
  "timers (goToStep2_settled n d outcome st) = timers st"
  "progressInterval (goToStep2_settled n d outcome st) = progressInterval st"
  "visualProgress (goToStep2_settled n d outcome st) = visualProgress st"
  by (simp_all add: goToStep2_settled_def Let_def showError_frame
        split: fetch_outcome.splits body.splits field.splits)

lemma goToStep2_send_empty:
  assumes "nextBtn st \<noteq> None" "read_brandName u st = []"
  shows "goToStep2_send u st = (None, showError ''Please enter a brand name.'' st)"
  using assms by (auto simp: goToStep2_send_def Let_def)

lemma goToStep2_send_named:
  assumes "nextBtn st \<noteq> None" "read_brandName u st \<noteq> []"
  shows "fst (goToStep2_send u st) = Some (read_brandName u st, read_brandDesc u st) \<and>
         requests (snd (goToStep2_send u st)) =
           requests st @ [BrandLookup \<lparr>lq_brand_name = read_brandName u st,
                                       lq_brand_description = read_brandDesc u st\<rparr>]"
  using assms by (auto simp: goToStep2_send_def Let_def fetch_def showError_frame)

text \<open>
  Claim C2. On a page with the Next button, \<^verbatim>\<open>goToStep2\<close> sends a lookup request exactly
  when the brand name read from the active step is non-empty after trimming: then it sends
  one request, with the trimmed name (and the description as read), whatever the outcome
  of the request; for an empty or blank name it sends none and shows the message
  "Please enter a brand name." in the error box.
\<close>

theorem goToStep2_lookup_iff_name:
  assumes "nextBtn st \<noteq> None"
  shows "(read_brandName u st \<noteq> [] \<longrightarrow>
            requests (goToStep2 u outcome st) =
              requests st @ [BrandLookup \<lparr>lq_brand_name = read_brandName u st,
                                          lq_brand_description = read_brandDesc u st\<rparr>]) \<and>
         (read_brandName u st = [] \<longrightarrow>
            requests (goToStep2 u outcome st) = requests st \<and>
            errorBox (goToStep2 u outcome st) =
              assign \<lparr>eb_display = ''block'', eb_textContent = ''Please enter a brand name.''\<rparr>
                (errorBox st)) \<and>
         (requests (goToStep2 u outcome st) \<noteq> requests st \<longleftrightarrow> read_brandName u st \<noteq> [])"
proof (cases "read_brandName u st = []")
  case True
  with assms show ?thesis
    by (simp add: goToStep2_def goToStep2_send_empty showError_frame showError_errorBox)
next
  case False
  from goToStep2_send_named [OF assms False]
  obtain st1 where s: "goToStep2_send u st = (Some (read_brandName u st, read_brandDesc u st), st1)"
    and r: "requests st1 = requests st @ [BrandLookup \<lparr>lq_brand_name = read_brandName u st,
                                       lq_brand_description = read_brandDesc u st\<rparr>]"
    by (cases "goToStep2_send u st") auto
  with False show ?thesis
    by (simp add: goToStep2_def goToStep2_settled_frame)
qed


theorem goToStep2_lookup_iff_name_witness:
  "requests (goToStep2 False NetworkError acme_page) =
     [BrandLookup \<lparr>lq_brand_name = ''Acme'', lq_brand_description = ''anvils ''\<rparr>] \<and>
   requests (goToStep2 True NetworkError blank_name_page) = [] \<and>
   errorBox (goToStep2 True NetworkError blank_name_page) =
     Some \<lparr>eb_display = ''block'', eb_textContent = ''Please enter a brand name.''\<rparr>"
proof -
  have a: "nextBtn acme_page \<noteq> None" "read_brandName False acme_page = ''Acme''"
          "read_brandDesc False acme_page = ''anvils ''" "requests acme_page = []"
    by (simp_all add: acme_page_def full_page_def DOMContentLoaded_def read_brandName_def
          read_brandDesc_def trim_def is_space_def)
  have b: "nextBtn blank_name_page \<noteq> None" "read_brandName True blank_name_page = []"
          "requests blank_name_page = []"
          "errorBox blank_name_page = Some \<lparr>eb_display = ''none'', eb_textContent = []\<rparr>"
    by (simp_all add: blank_name_page_def full_page_def DOMContentLoaded_def read_brandName_def
          trim_def is_space_def)
  from goToStep2_lookup_iff_name [OF a(1), of False NetworkError]
       goToStep2_lookup_iff_name [OF b(1), of True NetworkError]
  show ?thesis by (simp add: a b)
qed

lemma or_str_missing: "or_str f d = (if missing f then d else present_value f)"
  by (cases f) (simp_all add: missing_def)

text \<open>
  Claim C5. After a successful lookup (status 2xx, a body without \<^verbatim>\<open>error\<close>), a property
  that is missing from the body (absent, \<^verbatim>\<open>null\<close> or empty) leaves the step-2 name and
  description at the values submitted in the request, which for the Next button are the
  trimmed step-1 name and the step-1 description, and the URL, region, language and topics
  at the empty string; a property that is present is copied.
\<close>

theorem goToStep2_populates_step2:
  assumes "nextBtn st \<noteq> None" and "read_brandName u st \<noteq> []"
    and "resp_ok status" and "\<not> truthy_str (r_error d)"
  shows "let st' = goToStep2 u (Response status (Parsed (Val d))) st;
             submitted_name = read_brandName u st;
             submitted_desc = read_brandDesc u st
         in last (requests st') = BrandLookup \<lparr>lq_brand_name = submitted_name,
                                                lq_brand_description = submitted_desc\<rparr> \<and>
            brandNameStep2 st' =
              assign (if missing (r_brand_name d) then submitted_name
                      else present_value (r_brand_name d)) (brandNameStep2 st) \<and>
            brandDescStep2 st' =
              assign (if missing (r_brand_description d) then submitted_desc
                      else present_value (r_brand_description d)) (brandDescStep2 st) \<and>
            brandUrlStep2 st' =
              assign (if missing (r_brand_url d) then [] else present_value (r_brand_url d))
                (brandUrlStep2 st) \<and>
            brandRegionStep2 st' =
              assign (if missing (r_region d) then [] else present_value (r_region d))
                (brandRegionStep2 st) \<and>
            brandLangStep2 st' =
              assign (if missing (r_language d) then [] else present_value (r_language d))
                (brandLangStep2 st) \<and>
            brandTopicsStep2 st' =
              assign (if missing (r_initial_topics d) then [] else present_value (r_initial_topics d))
                (brandTopicsStep2 st) \<and>
            (\<not> u \<longrightarrow> submitted_name = trim (value_or_empty (brandNameStep1 st)) \<and>
                     submitted_desc = value_or_empty (brandDescStep1 st))"
proof -
  from goToStep2_send_named [OF assms(1,2)]
  obtain st1 where s: "goToStep2_send u st = (Some (read_brandName u st, read_brandDesc u st), st1)"
    and r: "requests st1 = requests st @ [BrandLookup \<lparr>lq_brand_name = read_brandName u st,
                                       lq_brand_description = read_brandDesc u st\<rparr>]"
    by (cases "goToStep2_send u st") auto
  have f: "brandNameStep2 st1 = brandNameStep2 st" "brandDescStep2 st1 = brandDescStep2 st"
          "brandUrlStep2 st1 = brandUrlStep2 st" "brandRegionStep2 st1 = brandRegionStep2 st"
          "brandLangStep2 st1 = brandLangStep2 st" "brandTopicsStep2 st1 = brandTopicsStep2 st"
    using s assms(1,2)
    by (auto simp: goToStep2_send_def Let_def fetch_def showError_def split: option.splits)
  have g: "goToStep2 u (Response status (Parsed (Val d))) st =
           goToStep2_settled (read_brandName u st) (read_brandDesc u st)
             (Response status (Parsed (Val d))) st1"
    by (simp add: goToStep2_def s)
  show ?thesis
    unfolding Let_def g
    using assms(3,4) r f
    by (simp add: goToStep2_settled_def Let_def or_str_missing read_brandName_def read_brandDesc_def)
qed


theorem goToStep2_populates_step2_witness:
  "brandNameStep2 (goToStep2 False (Response 200 (Parsed (Val url_only))) acme_page) = Some ''Acme'' \<and>
   brandDescStep2 (goToStep2 False (Response 200 (Parsed (Val url_only))) acme_page) = Some ''anvils '' \<and>
   brandUrlStep2 (goToStep2 False (Response 200 (Parsed (Val url_only))) acme_page) = Some ''https://acme.test'' \<and>
   brandRegionStep2 (goToStep2 False (Response 200 (Parsed (Val url_only))) acme_page) = Some [] \<and>
   brandTopicsStep2 (goToStep2 False (Response 200 (Parsed (Val url_only))) acme_page) = Some []"
proof -
  have a: "nextBtn acme_page \<noteq> None" "read_brandName False acme_page \<noteq> []"
          "resp_ok 200" "\<not> truthy_str (r_error url_only)"
    by (simp_all add: acme_page_def full_page_def DOMContentLoaded_def read_brandName_def
          trim_def is_space_def resp_ok_def url_only_def)
  have v: "read_brandName False acme_page = ''Acme''" "read_brandDesc False acme_page = ''anvils ''"
    by (simp_all add: acme_page_def full_page_def DOMContentLoaded_def read_brandName_def
          read_brandDesc_def trim_def is_space_def)
  have p: "brandNameStep2 acme_page = Some []" "brandDescStep2 acme_page = Some []"
          "brandUrlStep2 acme_page = Some []" "brandRegionStep2 acme_page = Some []"
          "brandTopicsStep2 acme_page = Some []"
    by (simp_all add: acme_page_def full_page_def DOMContentLoaded_def)
  have m: "missing (r_brand_name url_only)" "missing (r_brand_description url_only)"
          "\<not> missing (r_brand_url url_only)" "missing (r_region url_only)"
          "missing (r_initial_topics url_only)" "present_value (r_brand_url url_only) = ''https://acme.test''"
    by (simp_all add: url_only_def missing_def)
  from goToStep2_populates_step2 [OF a] show ?thesis
    by (simp add: Let_def v p m)
qed

section \<open>Properties of Create and of the progress timer\<close>

lemma closeModal_frame:
  "requests (closeModal st) = requests st"
  "timers (closeModal st) = timers st"
  "progressInterval (closeModal st) = progressInterval st"
  "brandNameStep2 (closeModal st) = brandNameStep2 st"
  "brandDescStep2 (closeModal st) = brandDescStep2 st"
  "brandUrlStep2 (closeModal st) = brandUrlStep2 st"
  "brandRegionStep2 (closeModal st) = brandRegionStep2 st"
  "brandLangStep2 (closeModal st) = brandLangStep2 st"
  "brandTopicsStep2 (closeModal st) = brandTopicsStep2 st"
  "timers_created (closeModal st) = timers_created st"
  "backdrop (closeModal st) = assign False (backdrop st)"
  by (simp_all add: closeModal_def)

lemma startProgressAnimation_timers:
  "progressInterval (startProgressAnimation st) = Some (Suc (timers_created (stopProgressAnimation st))) \<and>
   timers (startProgressAnimation st) =
     timers (stopProgressAnimation st) @ [Suc (timers_created (stopProgressAnimation st))] \<and>
   visualProgress (startProgressAnimation st) = 0 \<and>
   requests (startProgressAnimation st) = requests st \<and>
   backdrop (startProgressAnimation st) = backdrop st"
  by (simp add: startProgressAnimation_def setInterval_def Let_def stopProgressAnimation_def
        clearInterval_def split: option.splits)

lemma stopProgressAnimation_frame:
  "timers_created (stopProgressAnimation st) = timers_created st"
  "requests (stopProgressAnimation st) = requests st"
  "backdrop (stopProgressAnimation st) = backdrop st"
  "visualProgress (stopProgressAnimation st) = visualProgress st"
  by (simp_all add: stopProgressAnimation_def clearInterval_def split: option.splits)

lemma updateAnalysisProgress_frame:
  "requests (updateAnalysisProgress p a b st) = requests st"
  "timers (updateAnalysisProgress p a b st) = timers st"
  "timers_created (updateAnalysisProgress p a b st) = timers_created st"
  "progressInterval (updateAnalysisProgress p a b st) = progressInterval st"
  "visualProgress (updateAnalysisProgress p a b st) = visualProgress st"
  "backdrop (updateAnalysisProgress p a b st) = backdrop st"
  by (simp_all add: updateAnalysisProgress_def Let_def)

lemma showAnalysisBar_frame:
  "requests (showAnalysisBar st) = requests st"
  "timers (showAnalysisBar st) = timers st"
  "timers_created (showAnalysisBar st) = timers_created st"
  "progressInterval (showAnalysisBar st) = progressInterval st"
  "visualProgress (showAnalysisBar st) = visualProgress st"
  "backdrop (showAnalysisBar st) = backdrop st"
  by (simp_all add: showAnalysisBar_def)

lemma updateMetricCards_frame:
  "requests (updateMetricCardsFromAnalysis d f st) = requests st"
  "timers (updateMetricCardsFromAnalysis d f st) = timers st"
  "progressInterval (updateMetricCardsFromAnalysis d f st) = progressInterval st"
  "visualProgress (updateMetricCardsFromAnalysis d f st) = visualProgress st"
  "backdrop (updateMetricCardsFromAnalysis d f st) = backdrop st"
  by (simp_all add: updateMetricCardsFromAnalysis_def Let_def)

lemma createOrUpdateTrendChart_frame:
  "requests (createOrUpdateTrendChart m st) = requests st"
  "timers (createOrUpdateTrendChart m st) = timers st"
  "progressInterval (createOrUpdateTrendChart m st) = progressInterval st"
  "visualProgress (createOrUpdateTrendChart m st) = visualProgress st"
  "backdrop (createOrUpdateTrendChart m st) = backdrop st"
  by (simp_all add: createOrUpdateTrendChart_def setTrendTabs_def Let_def)

lemma updateCharts_frame:
  "requests (updateChartsFromAnalysis d b t st) = requests st"
  "timers (updateChartsFromAnalysis d b t st) = timers st"
  "progressInterval (updateChartsFromAnalysis d b t st) = progressInterval st"
  "visualProgress (updateChartsFromAnalysis d b t st) = visualProgress st"
  "backdrop (updateChartsFromAnalysis d b t st) = backdrop st"
  by (simp_all add: updateChartsFromAnalysis_def populateTopicDropdown_def
        createOrUpdateDonutChart_def createOrUpdateTrendChart_frame Let_def)

lemma analysis_settled_frame:
  "requests (runBrandAnalysisFromStep2_settled b t outcome st) = requests st"
  "backdrop (runBrandAnalysisFromStep2_settled b t outcome st) = backdrop st"
  by (simp_all add: runBrandAnalysisFromStep2_settled_def Let_def updateCharts_frame
        updateMetricCards_frame updateAnalysisProgress_frame stopProgressAnimation_frame
        split: fetch_outcome.splits body.splits)

lemma analysis_send_empty:
  assumes "trim (value_or_empty (brandNameStep2 st)) = []"
  shows "runBrandAnalysisFromStep2_send st = (None, st)"
  using assms by (cases "brandNameStep2 st") (simp_all add: runBrandAnalysisFromStep2_send_def Let_def)

lemma analysis_send_named:
  assumes "brandNameStep2 st = Some v" "trim v \<noteq> []"
  shows "fst (runBrandAnalysisFromStep2_send st) =
           Some (trim v, trim (value_or_empty (brandTopicsStep2 st))) \<and>
         requests (snd (runBrandAnalysisFromStep2_send st)) =
           requests st @ [BrandAnalyze
              \<lparr>brand_name = trim v,
               brand_description = trim (value_or_empty (brandDescStep2 st)),
               brand_url = trim (value_or_empty (brandUrlStep2 st)),
               region = trim (value_or_empty (brandRegionStep2 st)),
               language = trim (value_or_empty (brandLangStep2 st)),
               initial_topics = trim (value_or_empty (brandTopicsStep2 st))\<rparr>] \<and>
         progressInterval (snd (runBrandAnalysisFromStep2_send st)) = Some (Suc (timers_created st)) \<and>
         Suc (timers_created st) \<in> set (timers (snd (runBrandAnalysisFromStep2_send st))) \<and>
         visualProgress (snd (runBrandAnalysisFromStep2_send st)) = 0 \<and>
         backdrop (snd (runBrandAnalysisFromStep2_send st)) = backdrop st"
  using assms
  by (simp add: runBrandAnalysisFromStep2_send_def Let_def fetch_def startProgressAnimation_timers
        stopProgressAnimation_frame updateAnalysisProgress_frame showAnalysisBar_frame)

text \<open>
  Claim C3 as stated fails: with a brand name of two spaces, Create is not a no-op, it
  closes the open modal.
\<close>

theorem createBtn_click_blank_name_closes_modal:
  "trim (value_or_empty (brandNameStep2 blank_name_page)) = [] \<and>
   backdrop blank_name_page = Some True \<and>
   backdrop (createBtn_click NetworkError blank_name_page) = Some False \<and>
   createBtn_click NetworkError blank_name_page \<noteq> blank_name_page"
proof -
  have a: "trim (value_or_empty (brandNameStep2 blank_name_page)) = []"
    and b: "backdrop blank_name_page = Some True"
    by (simp_all add: blank_name_page_def trim_def is_space_def)
  have c: "backdrop (createBtn_click NetworkError blank_name_page) = Some False"
    using a b
    by (simp add: createBtn_click_def runBrandAnalysisFromStep2_def analysis_send_empty closeModal_frame)
  from b c have "createBtn_click NetworkError blank_name_page \<noteq> blank_name_page" by auto
  with a b c show ?thesis by simp
qed

text \<open>
  Claim C3, as the code has it. The Create handler closes the modal first, whatever the
  brand name. With an empty or blank step-2 name it does nothing more: no request, no timer.
  With a non-empty name it sends exactly one analyze request with the six trimmed step-2
  values and starts the progress animation (a new timer is running, progress 0).
\<close>

theorem createBtn_click_closes_then_checks:
  "backdrop (createBtn_click outcome st) = assign False (backdrop st) \<and>
   (trim (value_or_empty (brandNameStep2 st)) = [] \<longrightarrow>
      createBtn_click outcome st = closeModal st \<and>
      requests (createBtn_click outcome st) = requests st \<and>
      timers (createBtn_click outcome st) = timers st \<and>
      progressInterval (createBtn_click outcome st) = progressInterval st) \<and>
   (\<forall>v. brandNameStep2 st = Some v \<and> trim v \<noteq> [] \<longrightarrow>
      requests (createBtn_click outcome st) =
        requests st @ [BrandAnalyze
           \<lparr>brand_name = trim v,
            brand_description = trim (value_or_empty (brandDescStep2 st)),
            brand_url = trim (value_or_empty (brandUrlStep2 st)),
            region = trim (value_or_empty (brandRegionStep2 st)),
            language = trim (value_or_empty (brandLangStep2 st)),
            initial_topics = trim (value_or_empty (brandTopicsStep2 st))\<rparr>] \<and>
      progressInterval (snd (createBtn_click_send st)) = Some (Suc (timers_created st)) \<and>
      Suc (timers_created st) \<in> set (timers (snd (createBtn_click_send st))) \<and>
      visualProgress (snd (createBtn_click_send st)) = 0)"
proof (intro conjI impI allI)
  show "backdrop (createBtn_click outcome st) = assign False (backdrop st)"
  proof (cases "trim (value_or_empty (brandNameStep2 st)) = []")
    case True
    then show ?thesis
      by (simp add: createBtn_click_def runBrandAnalysisFromStep2_def analysis_send_empty closeModal_frame)
  next
    case False
    then obtain v where v: "brandNameStep2 (closeModal st) = Some v" "trim v \<noteq> []"
      by (cases "brandNameStep2 st") (auto simp: trim_Nil closeModal_frame)
    from analysis_send_named [OF v]
    obtain k st1 where s: "runBrandAnalysisFromStep2_send (closeModal st) = (Some k, st1)"
      and b: "backdrop st1 = backdrop (closeModal st)"
      by (cases "runBrandAnalysisFromStep2_send (closeModal st)") auto
    then show ?thesis
      by (cases k) (simp add: createBtn_click_def runBrandAnalysisFromStep2_def
            analysis_settled_frame closeModal_frame)
  qed
next
  assume e: "trim (value_or_empty (brandNameStep2 st)) = []"
  then have c: "createBtn_click outcome st = closeModal st"
    by (simp add: createBtn_click_def runBrandAnalysisFromStep2_def analysis_send_empty closeModal_frame)
  then show "createBtn_click outcome st = closeModal st" .
  from c show "requests (createBtn_click outcome st) = requests st"
    and "timers (createBtn_click outcome st) = timers st"
    and "progressInterval (createBtn_click outcome st) = progressInterval st"
    by (simp_all add: closeModal_frame)
next
  fix v assume a: "brandNameStep2 st = Some v \<and> trim v \<noteq> []"
  then have v: "brandNameStep2 (closeModal st) = Some v" "trim v \<noteq> []"
    by (simp_all add: closeModal_frame)
  note n = analysis_send_named [OF v, unfolded closeModal_frame]
  from n obtain k st1 where s: "runBrandAnalysisFromStep2_send (closeModal st) = (Some k, st1)"
    by (cases "runBrandAnalysisFromStep2_send (closeModal st)") auto
  with n show "requests (createBtn_click outcome st) =
        requests st @ [BrandAnalyze
           \<lparr>brand_name = trim v,
            brand_description = trim (value_or_empty (brandDescStep2 st)),
            brand_url = trim (value_or_empty (brandUrlStep2 st)),
            region = trim (value_or_empty (brandRegionStep2 st)),
            language = trim (value_or_empty (brandLangStep2 st)),
            initial_topics = trim (value_or_empty (brandTopicsStep2 st))\<rparr>]"
    by (cases k) (simp add: createBtn_click_def runBrandAnalysisFromStep2_def analysis_settled_frame)
  from n show "progressInterval (snd (createBtn_click_send st)) = Some (Suc (timers_created st))"
    and "Suc (timers_created st) \<in> set (timers (snd (createBtn_click_send st)))"
    and "visualProgress (snd (createBtn_click_send st)) = 0"
    by (simp_all add: createBtn_click_send_def)
qed


theorem createBtn_click_closes_then_checks_witness:
  "backdrop (createBtn_click NetworkError configured_page) = Some False \<and>
   requests (createBtn_click NetworkError configured_page) =
     [BrandAnalyze \<lparr>brand_name = ''Acme'', brand_description = ''anvils'',
                    brand_url = ''https://acme.test'', region = ''US'', language = ''en'',
                    initial_topics = ''a'' @ [LF] @ ''b''\<rparr>] \<and>
   progressInterval (snd (createBtn_click_send configured_page)) = Some 1 \<and>
   createBtn_click NetworkError blank_name_page = closeModal blank_name_page"
proof -
  have p: "backdrop configured_page = Some True" "brandNameStep2 configured_page = Some '' Acme ''"
          "trim '' Acme '' = ''Acme''" "requests configured_page = []"
          "timers_created configured_page = 0"
          "trim (value_or_empty (brandDescStep2 configured_page)) = ''anvils''"
          "trim (value_or_empty (brandUrlStep2 configured_page)) = ''https://acme.test''"
          "trim (value_or_empty (brandRegionStep2 configured_page)) = ''US''"
          "trim (value_or_empty (brandLangStep2 configured_page)) = ''en''"
          "trim (value_or_empty (brandTopicsStep2 configured_page)) = ''a'' @ [LF] @ ''b''"
    by (simp_all add: configured_page_def full_page_def DOMContentLoaded_def trim_def is_space_def)
  have q: "trim (value_or_empty (brandNameStep2 blank_name_page)) = []"
    by (simp add: blank_name_page_def trim_def is_space_def)
  note t = createBtn_click_closes_then_checks [of NetworkError configured_page]
  from t have t1: "backdrop (createBtn_click NetworkError configured_page) =
                   assign False (backdrop configured_page)"
    by (elim conjE) assumption
  from t have "\<forall>v. brandNameStep2 configured_page = Some v \<and> trim v \<noteq> [] \<longrightarrow>
      requests (createBtn_click NetworkError configured_page) =
        requests configured_page @ [BrandAnalyze
           \<lparr>brand_name = trim v,
            brand_description = trim (value_or_empty (brandDescStep2 configured_page)),
            brand_url = trim (value_or_empty (brandUrlStep2 configured_page)),
            region = trim (value_or_empty (brandRegionStep2 configured_page)),
            language = trim (value_or_empty (brandLangStep2 configured_page)),
            initial_topics = trim (value_or_empty (brandTopicsStep2 configured_page))\<rparr>] \<and>
      progressInterval (snd (createBtn_click_send configured_page)) =
        Some (Suc (timers_created configured_page)) \<and>
      Suc (timers_created configured_page) \<in> set (timers (snd (createBtn_click_send configured_page))) \<and>
      visualProgress (snd (createBtn_click_send configured_page)) = 0"
    by (elim conjE) assumption
  from this [rule_format, of "'' Acme ''"] p
  have t2: "requests (createBtn_click NetworkError configured_page) =
     [BrandAnalyze \<lparr>brand_name = ''Acme'', brand_description = ''anvils'',
                    brand_url = ''https://acme.test'', region = ''US'', language = ''en'',
                    initial_topics = ''a'' @ [LF] @ ''b''\<rparr>] \<and>
     progressInterval (snd (createBtn_click_send configured_page)) = Some 1"
    by simp
  from createBtn_click_closes_then_checks [of NetworkError blank_name_page] q
  have t3: "createBtn_click NetworkError blank_name_page = closeModal blank_name_page"
    by blast
  from t1 t2 t3 p(1) show ?thesis by simp
qed

lemma timers_agree_cong:
  "timers st' = timers st \<Longrightarrow> progressInterval st' = progressInterval st \<Longrightarrow>
   timers_agree st' = timers_agree st"
  by (simp add: timers_agree_def)

lemma timers_agree_stop:
  assumes "timers_agree st"
  shows "timers (stopProgressAnimation st) = [] \<and> progressInterval (stopProgressAnimation st) = None"
  using assms
  by (cases "progressInterval st") (simp_all add: timers_agree_def stopProgressAnimation_def clearInterval_def)

lemma timers_agree_start:
  assumes "timers_agree st"
  shows "timers (startProgressAnimation st) = [Suc (timers_created st)] \<and>
         progressInterval (startProgressAnimation st) = Some (Suc (timers_created st)) \<and>
         timers_agree (startProgressAnimation st)"
  using timers_agree_stop [OF assms]
  by (simp add: startProgressAnimation_timers stopProgressAnimation_frame timers_agree_def)

lemma timers_agree_stop_inv: "timers_agree st \<Longrightarrow> timers_agree (stopProgressAnimation st)"
  using timers_agree_stop [of st] by (simp add: timers_agree_def)

lemma progressTick_frame:
  "timers (progressTick st) = timers st"
  "progressInterval (progressTick st) = progressInterval st"
  by (simp_all add: progressTick_def Let_def updateAnalysisProgress_frame)

lemma progressTick_progress:
  "visualProgress (progressTick st) = (if visualProgress st < 90 then visualProgress st + 1 else visualProgress st)"
  by (simp add: progressTick_def Let_def updateAnalysisProgress_frame)

lemma openModal_frame:
  "timers (openModal st) = timers st" "progressInterval (openModal st) = progressInterval st"
  by (simp_all add: openModal_def resetModal_def Let_def)

lemma goToStep2_send_frame:
  "timers (snd (goToStep2_send u st)) = timers st"
  "progressInterval (snd (goToStep2_send u st)) = progressInterval st"
  by (simp_all add: goToStep2_send_def Let_def fetch_def showError_frame split: option.splits)

lemma analysis_settled_agree:
  assumes "timers_agree st"
  shows "timers_agree (runBrandAnalysisFromStep2_settled b t outcome st)"
proof -
  have "timers_agree (updateChartsFromAnalysis d b t (updateMetricCardsFromAnalysis d b
          (updateAnalysisProgress p x y (stopProgressAnimation st))))" for d p x y
    using timers_agree_stop_inv [OF assms]
    by (simp add: timers_agree_def updateCharts_frame updateMetricCards_frame updateAnalysisProgress_frame)
  then show ?thesis
    using timers_agree_stop_inv [OF assms]
    by (simp add: runBrandAnalysisFromStep2_settled_def Let_def split: fetch_outcome.splits body.splits)
qed

lemma analysis_send_agree:
  assumes "timers_agree st"
  shows "timers_agree (snd (runBrandAnalysisFromStep2_send st))"
proof -
  have a: "timers_agree (updateAnalysisProgress p x y (showAnalysisBar st))" for p x y
    using assms by (simp add: timers_agree_def updateAnalysisProgress_frame showAnalysisBar_frame)
  have "timers_agree (fetch r (startProgressAnimation (updateAnalysisProgress p x y (showAnalysisBar st))))"
    for r p x y
    using timers_agree_start [OF a, of p x y] by (simp add: timers_agree_def fetch_def)
  with assms show ?thesis
    by (simp add: runBrandAnalysisFromStep2_send_def Let_def split: option.splits)
qed

lemma closeModal_agree: "timers_agree (closeModal st) = timers_agree st"
  by (simp add: timers_agree_def closeModal_frame)

lemma handle_agree:
  assumes "timers_agree st"
  shows "timers_agree (handle e st)"
proof (cases e)
  case OpenClick
  with assms show ?thesis by (simp add: timers_agree_def openModal_frame)
next
  case CloseClick
  with assms show ?thesis by (simp add: closeModal_agree)
next
  case NextClick
  with assms show ?thesis by (simp add: timers_agree_def goToStep2_send_frame)
next
  case RegenerateClick
  with assms show ?thesis by (simp add: timers_agree_def goToStep2_send_frame)
next
  case (LookupSettled n d outcome)
  with assms show ?thesis by (simp add: timers_agree_def goToStep2_settled_frame)
next
  case (BackdropClick on)
  with assms show ?thesis by (simp add: closeModal_agree)
next
  case TabVisibilityClick
  with assms show ?thesis by (simp add: timers_agree_def createOrUpdateTrendChart_frame)
next
  case TabRankClick
  with assms show ?thesis by (simp add: timers_agree_def createOrUpdateTrendChart_frame)
next
  case TopicChange
  with assms show ?thesis by simp
next
  case CreateClick
  with assms show ?thesis
    by (simp add: createBtn_click_send_def analysis_send_agree closeModal_agree)
next
  case (AnalyzeSettled b t outcome)
  with assms show ?thesis by (simp add: analysis_settled_agree)
next
  case (TimerFires h)
  with assms show ?thesis by (simp add: timers_agree_def progressTick_frame)
qed

lemma run_agree: "timers_agree st \<Longrightarrow> timers_agree (run es st)"
  by (induction es arbitrary: st) (simp_all add: handle_agree)

lemma loaded_agree: "timers_agree (DOMContentLoaded st)"
  by (simp add: timers_agree_def DOMContentLoaded_def)

lemma timers_agree_length: "timers_agree st \<Longrightarrow> length (timers st) \<le> 1"
  by (cases "progressInterval st") (simp_all add: timers_agree_def)

lemma tick_all_progress:
  assumes "timers_agree st"
  shows "visualProgress (tick_all st) \<le> visualProgress st + 1"
  using assms
  by (cases "progressInterval st") (simp_all add: timers_agree_def tick_all_def progressTick_progress)

text \<open>
  Claim C6. From the loaded page, after any sequence of events, at most one progress timer
  runs, and it is the one \<^verbatim>\<open>progressInterval\<close> holds. \<^verbatim>\<open>stopProgressAnimation\<close>
  leaves none running, so \<^verbatim>\<open>startProgressAnimation\<close> leaves exactly its new one, also
  when called twice in succession; and one period of the interval raises the displayed
  progress by at most one (by exactly one right after two starts).
\<close>

theorem one_progress_timer:
  "let s = run es (DOMContentLoaded st) in
     length (timers s) \<le> 1 \<and>
     timers s = (case progressInterval s of None \<Rightarrow> [] | Some h \<Rightarrow> [h]) \<and>
     timers (stopProgressAnimation s) = [] \<and>
     timers (startProgressAnimation s) = [Suc (timers_created s)] \<and>
     length (timers (startProgressAnimation (startProgressAnimation s))) = 1 \<and>
     visualProgress (tick_all s) \<le> visualProgress s + 1 \<and>
     visualProgress (tick_all (startProgressAnimation (startProgressAnimation s))) = 1"
proof -
  let ?s = "run es (DOMContentLoaded st)"
  have a: "timers_agree ?s" by (rule run_agree [OF loaded_agree])
  note b = timers_agree_start [OF a]
  then have c: "timers_agree (startProgressAnimation ?s)" by simp
  note d = timers_agree_start [OF c]
  have "timers ?s = (case progressInterval ?s of None \<Rightarrow> [] | Some h \<Rightarrow> [h])"
    using a by (cases "progressInterval ?s") (simp_all add: timers_agree_def)
  moreover have "visualProgress (tick_all (startProgressAnimation (startProgressAnimation ?s))) = 1"
    using d by (simp add: tick_all_def progressTick_progress startProgressAnimation_timers)
  ultimately show ?thesis
    using timers_agree_length [OF a] timers_agree_stop [OF a] b d tick_all_progress [OF a]
    by (simp add: Let_def)
qed


theorem one_progress_timer_witness:
  "timers (run [CreateClick, TimerFires 1, CreateClick] (DOMContentLoaded configured_page)) = [2] \<and>
   progressInterval (run [CreateClick, TimerFires 1, CreateClick] (DOMContentLoaded configured_page)) = Some 2 \<and>
   length (timers (run [CreateClick, TimerFires 1, CreateClick] (DOMContentLoaded configured_page))) \<le> 1"
proof -
  let ?s = "run [CreateClick, TimerFires 1, CreateClick] (DOMContentLoaded configured_page)"
  have n: "brandNameStep2 st = Some '' Acme '' \<Longrightarrow>
           progressInterval (handle CreateClick st) = Some (Suc (timers_created st)) \<and>
           timers_created (handle CreateClick st) = Suc (timers_created st) \<and>
           brandNameStep2 (handle CreateClick st) = Some '' Acme ''" for st
    by (simp add: createBtn_click_send_def closeModal_def runBrandAnalysisFromStep2_send_def Let_def
          trim_def is_space_def fetch_def startProgressAnimation_def setInterval_def
          stopProgressAnimation_def clearInterval_def updateAnalysisProgress_def showAnalysisBar_def
          split: option.splits)
  have f: "timers_created (handle (TimerFires h) st) = timers_created st \<and>
           brandNameStep2 (handle (TimerFires h) st) = brandNameStep2 st" for h st
    by (simp add: progressTick_def updateAnalysisProgress_def Let_def)
  have i: "brandNameStep2 (DOMContentLoaded configured_page) = Some '' Acme ''"
          "timers_created (DOMContentLoaded configured_page) = 0"
    by (simp_all add: DOMContentLoaded_def configured_page_def full_page_def)
  have p: "progressInterval ?s = Some 2"
    using n [of "DOMContentLoaded configured_page"] i
          f [of 1 "handle CreateClick (DOMContentLoaded configured_page)"]
          n [of "handle (TimerFires 1) (handle CreateClick (DOMContentLoaded configured_page))"]
    by simp
  from one_progress_timer [of "[CreateClick, TimerFires 1, CreateClick]" configured_page] p
  show ?thesis by (simp add: Let_def)
qed

end
